theory Spec2Isabelle
  imports Complex_Main "HOL-Library.Log_Nat"
begin

section \<open>JavaScript values\<close>

text \<open>
  The values that the analytics module builds, stores and reads back are plain data:
  the JSON fragment of JavaScript, plus \<open>undefined\<close>. The numbers of that data are
  integers (epoch milliseconds, durations and counts); an object is its list of own
  properties in insertion order.
\<close>

datatype jsval =
    JUndefined
  | JNull
  | JBool bool
  | JNum int
  | JStr string
  | JArr "jsval list"
  | JObj "(string \<times> jsval) list"

type_synonym jsobj = "(string \<times> jsval) list"

datatype js_error = TypeError | SyntaxError | QuotaExceededError | SecurityError

text \<open>How a synchronous call ends: it returns, or an exception leaves it.\<close>

datatype completion = Done | Threw js_error

text \<open>
  The result of an expression: a value, an exception, or \<open>Unmodelled\<close> where the
  source applies a coercion of JavaScript that this development does not describe
  (adding a text or an object to a number, a property key that is not a string).
\<close>

datatype 'a outcome = Returns 'a | Throws js_error | Unmodelled

fun obind :: "'a outcome \<Rightarrow> ('a \<Rightarrow> 'b outcome) \<Rightarrow> 'b outcome" where
  "obind (Returns x) f = f x"
| "obind (Throws e) f = Throws e"
| "obind Unmodelled f = Unmodelled"

text \<open>
  Writing an own property, as the object literal \<open>{...data, k: v}\<close> does: a key that is
  already there keeps its place and takes the new value, a new key goes last.
\<close>

fun obj_set :: "string \<Rightarrow> jsval \<Rightarrow> jsobj \<Rightarrow> jsobj" where
  "obj_set k v [] = [(k, v)]"
| "obj_set k v ((k', v') # kvs) =
     (if k' = k then (k, v) # kvs else (k', v') # obj_set k v kvs)"

text \<open>Reading an own property: \<open>undefined\<close> when the key is absent.\<close>

definition obj_get :: "jsobj \<Rightarrow> string \<Rightarrow> jsval" where
  "obj_get kvs k = (case map_of kvs k of Some v \<Rightarrow> v | None \<Rightarrow> JUndefined)"

text \<open>
  The property names that the module reads from stored values. None of them is
  defined by a built-in prototype, so a read on a number, a string, a boolean or an
  array yields \<open>undefined\<close>, and a read on \<open>undefined\<close> or \<open>null\<close> throws.
\<close>

datatype field = F_name | F_data | F_category | F_duration | F_sessionId

fun field_name :: "field \<Rightarrow> string" where
  "field_name F_name = ''name''"
| "field_name F_data = ''data''"
| "field_name F_category = ''category''"
| "field_name F_duration = ''duration''"
| "field_name F_sessionId = ''sessionId''"

fun get_prop :: "jsval \<Rightarrow> field \<Rightarrow> jsval outcome" where
  "get_prop JUndefined f = Throws TypeError"
| "get_prop JNull f = Throws TypeError"
| "get_prop (JObj kvs) f = Returns (obj_get kvs (field_name f))"
| "get_prop v f = Returns JUndefined"

section \<open>Numbers\<close>

text \<open>
  The arithmetic of the source is that of IEEE 754 binary64: every operation gives
  the exact result rounded to the nearest number with a significand of 53 bits, a tie
  going to the even significand. A finite double is the rational that it denotes;
  the sign of zero is not kept: every zero is \<open>+0\<close>.
\<close>

datatype double = Num rat | PosInf | NegInf | NaN

definition round_half_even :: "rat \<Rightarrow> int" where
  "round_half_even x =
     (let f = \<lfloor>x\<rfloor>; r = x - of_int f
      in if r < 1 / 2 then f else if 1 / 2 < r then f + 1 else if even f then f else f + 1)"

text \<open>The binary exponent of a number: \<open>2 powi e \<le> \<bar>x\<bar> < 2 powi (e + 1)\<close>.\<close>

definition exponent_of :: "rat \<Rightarrow> int" where
  "exponent_of x =
     (if 1 \<le> \<bar>x\<bar> then bitlen \<lfloor>\<bar>x\<bar>\<rfloor> - 1 else - bitlen (\<lceil>1 / \<bar>x\<bar>\<rceil> - 1))"

text \<open>
  The distance between neighbouring doubles at \<open>x\<close>; below \<open>2 powi (- 1022)\<close> the
  numbers are subnormal and the distance is \<open>2 powi (- 1074)\<close>.
\<close>

definition quantum :: "rat \<Rightarrow> rat" where
  "quantum x = 2 powi (max (exponent_of x) (- 1022) - 52)"

definition rnd :: "rat \<Rightarrow> rat" where
  "rnd x = of_int (round_half_even (x / quantum x)) * quantum x"

text \<open>The double of an exact result: a rounded value of \<open>2 powi 1024\<close> overflows.\<close>

definition fl :: "rat \<Rightarrow> double" where
  "fl x =
     (let y = rnd x
      in if 2 powi 1024 \<le> y then PosInf
         else if y \<le> - (2 powi 1024) then NegInf
         else Num y)"

text \<open>\<open>x + y\<close>, \<open>x / y\<close> and \<open>x >= y\<close> on numbers.\<close>

fun dadd :: "double \<Rightarrow> double \<Rightarrow> double" where
  "dadd (Num a) (Num b) = fl (a + b)"
| "dadd NaN y = NaN"
| "dadd x NaN = NaN"
| "dadd PosInf NegInf = NaN"
| "dadd NegInf PosInf = NaN"
| "dadd PosInf y = PosInf"
| "dadd x PosInf = PosInf"
| "dadd NegInf y = NegInf"
| "dadd x NegInf = NegInf"

fun ddiv :: "double \<Rightarrow> double \<Rightarrow> double" where
  "ddiv (Num a) (Num b) =
     (if b = 0 then (if a = 0 then NaN else if 0 < a then PosInf else NegInf)
      else fl (a / b))"
| "ddiv NaN y = NaN"
| "ddiv x NaN = NaN"
| "ddiv (Num a) y = Num 0"
| "ddiv PosInf (Num b) = (if b < 0 then NegInf else PosInf)"
| "ddiv NegInf (Num b) = (if b < 0 then PosInf else NegInf)"
| "ddiv x y = NaN"

fun dge :: "double \<Rightarrow> double \<Rightarrow> bool" where
  "dge (Num a) (Num b) = (b \<le> a)"
| "dge NaN y = False"
| "dge x NaN = False"
| "dge PosInf y = True"
| "dge x NegInf = True"
| "dge x y = False"

text \<open>\<open>Math.floor\<close>, and \<open>Math.round\<close>: the nearest integer, a tie going up.\<close>

fun Math_floor :: "double \<Rightarrow> double" where
  "Math_floor (Num x) = Num (of_int \<lfloor>x\<rfloor>)"
| "Math_floor x = x"

fun Math_round :: "double \<Rightarrow> double" where
  "Math_round (Num x) = Num (of_int \<lfloor>x + 1 / 2\<rfloor>)"
| "Math_round x = x"

section \<open>Configuration, platform and environment\<close>

text \<open>\<open>APP_CONFIG.analytics\<close>.\<close>

definition analytics_enabled :: bool where
  "analytics_enabled = True"

definition trackingKey :: string where
  "trackingKey = ''linkpro_analytics''"

text \<open>
  The built-ins of the platform that the module calls and does not implement:
  \<open>JSON.stringify\<close>, \<open>JSON.parse\<close> (\<open>None\<close>: it throws a \<open>SyntaxError\<close>),
  \<open>Number.prototype.toLocaleString\<close>, and the text that \<open>Function.prototype.toString\<close>
  gives for the method of \<open>Object.prototype\<close> with a given name (the engine chooses
  it; V8 gives \<open>function Object() { [native code] }\<close> for \<open>constructor\<close>).
\<close>

record platform =
  JSON_stringify :: "jsval \<Rightarrow> string"
  JSON_parse :: "string \<Rightarrow> jsval option"
  toLocaleString :: "double \<Rightarrow> string"
  Function_toString :: "string \<Rightarrow> string"

text \<open>
  What a call reads from outside while it runs: the clock (\<open>Date.now()\<close>), the
  identifiers that \<open>Utils.generateId()\<close> and \<open>generateSessionId()\<close> build from the
  clock and \<open>Math.random()\<close>, the location, the referrer, \<open>Utils.getDeviceInfo()\<close>,
  the answer of \<open>matchMedia('(prefers-color-scheme: dark)')\<close>, and whether
  \<open>localStorage\<close> refuses a read or a write at this moment.
\<close>

record env =
  now :: int
  fresh_id :: string
  fresh_session_id :: string
  href :: string
  referrer :: string
  deviceInfo :: jsval
  prefers_dark :: bool
  getItem_fault :: "js_error option"
  setItem_fault :: "js_error option"

section \<open>State\<close>

text \<open>The fields that \<open>Analytics.init\<close> sets on the \<open>Analytics\<close> object.\<close>

record analytics =
  sessionId :: string
  startTime :: int
  events :: "jsval list"

datatype console_entry = Log string jsval | Warn string js_error

datatype listener =
    BeforeUnload_trackSessionEnd
  | Load_trackPerformance
  | Click_themeToggle
  | Change_systemTheme

text \<open>
  The page: the \<open>Analytics\<close> object (\<open>None\<close> until \<open>Analytics.init\<close> has run, when
  \<open>sessionId\<close>, \<open>startTime\<close> and \<open>events\<close> are \<open>undefined\<close>), \<open>localStorage\<close>, the
  console, the registered listeners, \<open>Theme.currentTheme\<close>, the \<open>data-theme\<close>
  attribute of the document element, whether the element \<open>#themeToggle\<close> exists, and
  the class of its icon (\<open>None\<close>: no icon element).
\<close>

record world =
  Analytics :: "analytics option"
  localStorage :: "string \<rightharpoonup> string"
  console :: "console_entry list"
  listeners :: "listener list"
  currentTheme :: string
  dataTheme :: "string option"
  themeToggle :: bool
  themeIcon :: "string option"

section \<open>localStorage\<close>

definition getItem :: "env \<Rightarrow> string \<Rightarrow> world \<Rightarrow> js_error + string option" where
  "getItem env k w =
     (case getItem_fault env of Some e \<Rightarrow> Inl e | None \<Rightarrow> Inr (localStorage w k))"

definition setItem :: "env \<Rightarrow> string \<Rightarrow> string \<Rightarrow> world \<Rightarrow> js_error + world" where
  "setItem env k v w =
     (case setItem_fault env of
        Some e \<Rightarrow> Inl e
      | None \<Rightarrow> Inr (w\<lparr>localStorage := (localStorage w)(k \<mapsto> v)\<rparr>))"

section \<open>Analytics\<close>

text \<open>
  \<open>saveToStorage\<close>: the whole in-memory sequence is serialised and written under the
  tracking key; a failure is caught and becomes a console warning. Before
  initialisation \<open>JSON.stringify(undefined)\<close> is \<open>undefined\<close>, which \<open>setItem\<close>
  stores as the text \<open>undefined\<close>.
\<close>

definition saveToStorage :: "platform \<Rightarrow> env \<Rightarrow> world \<Rightarrow> world" where
  "saveToStorage p env w =
     (let text = (case Analytics w of
                    None \<Rightarrow> ''undefined''
                  | Some a \<Rightarrow> JSON_stringify p (JArr (events a)))
      in case setItem env trackingKey text w of
           Inr w' \<Rightarrow> w'
         | Inl e \<Rightarrow> w\<lparr>console := console w @ [Warn ''Analytics storage failed:'' e]\<rparr>)"

text \<open>
  \<open>trackEvent(eventName, data = {})\<close>. A caller that passes no \<open>data\<close> passes the
  empty object. Before initialisation \<open>this.events\<close> is \<open>undefined\<close> and
  \<open>this.events.push\<close> throws a \<open>TypeError\<close>.
\<close>

definition make_event :: "env \<Rightarrow> string \<Rightarrow> string \<Rightarrow> jsobj \<Rightarrow> jsval" where
  "make_event env sid eventName data =
     JObj [(''id'', JStr (fresh_id env)),
           (''sessionId'', JStr sid),
           (''name'', JStr eventName),
           (''data'', JObj (obj_set ''url'' (JStr (href env))
                             (obj_set ''timestamp'' (JNum (now env)) data)))]"

definition trackEvent ::
  "platform \<Rightarrow> env \<Rightarrow> string \<Rightarrow> jsobj \<Rightarrow> world \<Rightarrow> completion \<times> world" where
  "trackEvent p env eventName data w =
     (if \<not> analytics_enabled then (Done, w)
      else case Analytics w of
        None \<Rightarrow> (Threw TypeError, w)
      | Some a \<Rightarrow>
          (let event = make_event env (sessionId a) eventName data;
               w1 = w\<lparr>Analytics := Some (a\<lparr>events := events a @ [event]\<rparr>)\<rparr>;
               w2 = saveToStorage p env w1
           in (Done, w2\<lparr>console := console w2 @ [Log ''Analytics Event:'' event]\<rparr>)))"

text \<open>
  \<open>trackSessionEnd\<close>: the arguments are evaluated first (\<open>env\<close>: the clock then, and
  the length of \<open>this.events\<close>, which throws before initialisation), then \<open>trackEvent\<close>
  runs (\<open>env'\<close>).
\<close>

definition trackSessionEnd :: "platform \<Rightarrow> env \<Rightarrow> env \<Rightarrow> world \<Rightarrow> completion \<times> world" where
  "trackSessionEnd p env env' w =
     (case Analytics w of
        None \<Rightarrow> (Threw TypeError, w)
      | Some a \<Rightarrow>
          trackEvent p env' ''session_end''
            [(''duration'', JNum (now env - startTime a)),
             (''eventsCount'', JNum (int (length (events a))))] w)"

text \<open>
  \<open>trackPerformance\<close> registers a listener for the \<open>load\<close> event (the page has
  \<open>window.performance\<close>, as in every browser that runs the script).
\<close>

definition trackPerformance :: "world \<Rightarrow> world" where
  "trackPerformance w = w\<lparr>listeners := listeners w @ [Load_trackPerformance]\<rparr>"

text \<open>
  \<open>Analytics.init\<close>: \<open>env\<close> is read by \<open>init\<close> itself, \<open>env'\<close> by the \<open>trackEvent\<close> call
  it makes for the page view.
\<close>

definition Analytics_init :: "platform \<Rightarrow> env \<Rightarrow> env \<Rightarrow> world \<Rightarrow> completion \<times> world" where
  "Analytics_init p env env' w =
     (if \<not> analytics_enabled then (Done, w)
      else
        (let w1 = w\<lparr>Analytics := Some \<lparr>sessionId = fresh_session_id env,
                                        startTime = now env, events = []\<rparr>\<rparr>
         in case trackEvent p env' ''page_view''
                   [(''url'', JStr (href env)),
                    (''referrer'', JStr (referrer env)),
                    (''device'', deviceInfo env)] w1 of
              (Threw e, w2) \<Rightarrow> (Threw e, w2)
            | (Done, w2) \<Rightarrow>
                (let w3 = trackPerformance w2
                 in (Done, w3\<lparr>listeners := listeners w3 @ [BeforeUnload_trackSessionEnd]\<rparr>))))"

text \<open>
  \<open>loadFromStorage\<close>: \<open>null\<close> (no such key) and the empty text are falsy and give the
  empty array; a throwing read or parse is caught, warned about, and gives the empty
  array.
\<close>

definition loadFromStorage :: "platform \<Rightarrow> env \<Rightarrow> world \<Rightarrow> jsval \<times> world" where
  "loadFromStorage p env w =
     (case getItem env trackingKey w of
        Inl e \<Rightarrow> (JArr [], w\<lparr>console := console w @ [Warn ''Analytics load failed:'' e]\<rparr>)
      | Inr None \<Rightarrow> (JArr [], w)
      | Inr (Some d) \<Rightarrow>
          (if d = [] then (JArr [], w)
           else case JSON_parse p d of
                  Some v \<Rightarrow> (v, w)
                | None \<Rightarrow>
                    (JArr [],
                     w\<lparr>console := console w @ [Warn ''Analytics load failed:'' SyntaxError]\<rparr>)))"

text \<open>A run of \<open>trackEvent\<close> calls, each with its own environment, name and data.\<close>

type_synonym call = "env \<times> string \<times> jsobj"

fun trackEvents :: "platform \<Rightarrow> call list \<Rightarrow> world \<Rightarrow> completion list \<times> world" where
  "trackEvents p [] w = ([], w)"
| "trackEvents p ((env, eventName, data) # cs) w =
     (let (c, w1) = trackEvent p env eventName data w;
          (rs, w2) = trackEvents p cs w1
      in (c # rs, w2))"

text \<open>
  The \<open>beforeunload\<close> event runs every listener registered for it, in registration
  order. An exception that leaves a listener is reported by the browser to the
  listeners for \<open>error\<close>; what follows from there is not described here: \<open>None\<close>.
\<close>

fun run_beforeunload :: "platform \<Rightarrow> env \<Rightarrow> env \<Rightarrow> listener \<Rightarrow> world \<Rightarrow> world option" where
  "run_beforeunload p env env' BeforeUnload_trackSessionEnd w =
     (case trackSessionEnd p env env' w of
        (Done, w') \<Rightarrow> Some w'
      | (Threw e, w') \<Rightarrow> None)"
| "run_beforeunload p env env' l w = Some w"

definition dispatch_beforeunload :: "platform \<Rightarrow> env \<Rightarrow> env \<Rightarrow> world \<Rightarrow> world option" where
  "dispatch_beforeunload p env env' w =
     fold (\<lambda>l r. Option.bind r (run_beforeunload p env env' l)) (listeners w) (Some w)"

section \<open>Summary\<close>

text \<open>\<open>e => e.name === n\<close>\<close>

definition name_is :: "string \<Rightarrow> jsval \<Rightarrow> bool outcome" where
  "name_is n e = obind (get_prop e F_name) (\<lambda>v. Returns (v = JStr n))"

text \<open>\<open>Array.prototype.filter\<close> with a callback that may throw.\<close>

fun filter_o :: "('a \<Rightarrow> bool outcome) \<Rightarrow> 'a list \<Rightarrow> 'a list outcome" where
  "filter_o P [] = Returns []"
| "filter_o P (x # xs) =
     obind (P x) (\<lambda>b. obind (filter_o P xs) (\<lambda>ys. Returns (if b then x # ys else ys)))"

text \<open>\<open>forEach\<close> and \<open>reduce\<close>: a left fold whose step may throw.\<close>

fun fold_o :: "('b \<Rightarrow> 'a \<Rightarrow> 'b outcome) \<Rightarrow> 'a list \<Rightarrow> 'b \<Rightarrow> 'b outcome" where
  "fold_o f [] acc = Returns acc"
| "fold_o f (x # xs) acc = obind (f acc x) (fold_o f xs)"

text \<open>
  The methods of \<open>Object.prototype\<close>. The object \<open>categories = {}\<close> inherits them, and
  the accessor \<open>__proto__\<close>: for these keys \<open>categories[k]\<close> is not \<open>undefined\<close> while
  the object has no own property \<open>k\<close>.
\<close>

definition object_prototype_methods :: "string list" where
  "object_prototype_methods =
     [''constructor'', ''__defineGetter__'', ''__defineSetter__'', ''hasOwnProperty'',
      ''__lookupGetter__'', ''__lookupSetter__'', ''isPrototypeOf'',
      ''propertyIsEnumerable'', ''toString'', ''valueOf'', ''toLocaleString'']"

definition object_prototype_names :: "string list" where
  "object_prototype_names = ''__proto__'' # object_prototype_methods"

text \<open>
  \<open>(v || 0) + 1\<close> for an own property \<open>v\<close> of \<open>categories\<close>: a number is
  incremented (zero is falsy and counts as 0), a text is truthy unless empty and has
  \<open>1\<close> appended.
\<close>

definition or_zero_plus_one :: "jsval \<Rightarrow> jsval outcome" where
  "or_zero_plus_one v =
     (case v of
        JNum n \<Rightarrow> Returns (JNum ((if n = 0 then 0 else n) + 1))
      | JStr s \<Rightarrow> Returns (if s = [] then JNum (0 + 1) else JStr (s @ ''1''))
      | _ \<Rightarrow> Unmodelled)"

text \<open>
  The body of the \<open>forEach\<close> in \<open>getSummary\<close>:
  \<open>categories[category] = (categories[category] || 0) + 1\<close>, on the own properties
  \<open>cats\<close> of \<open>categories\<close>.
  \<^item> For the key \<open>__proto__\<close> the read gives \<open>Object.prototype\<close>, and the write goes to
    the inherited setter, which ignores a text: nothing changes.
  \<^item> For an own property the value is updated.
  \<^item> For the name of an inherited method the read gives the function, which is
    truthy; adding 1 to it gives its text followed by \<open>1\<close>, and the write makes that
    an own property.
  \<^item> For any other key the read gives \<open>undefined\<close>, and the own property becomes 1.
\<close>

definition count_click ::
  "platform \<Rightarrow> (string \<rightharpoonup> jsval) \<Rightarrow> jsval \<Rightarrow> (string \<rightharpoonup> jsval) outcome" where
  "count_click p cats click =
     obind (get_prop click F_data) (\<lambda>d.
     obind (get_prop d F_category) (\<lambda>c.
       case c of
         JStr k \<Rightarrow>
           if k = ''__proto__'' then Returns cats
           else (case cats k of
                   Some v \<Rightarrow> obind (or_zero_plus_one v) (\<lambda>v'. Returns (cats(k \<mapsto> v')))
                 | None \<Rightarrow>
                     if k \<in> set object_prototype_methods
                     then Returns (cats(k \<mapsto> JStr (Function_toString p k @ ''1'')))
                     else Returns (cats(k \<mapsto> JNum (0 + 1))))
       | _ \<Rightarrow> Unmodelled))"

text \<open>
  The callback of the \<open>reduce\<close>: \<open>sum + session.data.duration\<close>, where \<open>sum\<close> is a
  number. A stored number is read as the double nearest to it; \<open>undefined\<close> counts as
  \<open>NaN\<close>, \<open>null\<close> as \<open>0\<close>, a boolean as \<open>0\<close> or \<open>1\<close>.
\<close>

definition add_duration :: "double \<Rightarrow> jsval \<Rightarrow> double outcome" where
  "add_duration acc session =
     obind (get_prop session F_data) (\<lambda>d.
     obind (get_prop d F_duration) (\<lambda>x.
       case x of
         JNum n \<Rightarrow> Returns (dadd acc (fl (of_int n)))
       | JUndefined \<Rightarrow> Returns (dadd acc NaN)
       | JNull \<Rightarrow> Returns (dadd acc (Num 0))
       | JBool b \<Rightarrow> Returns (dadd acc (Num (if b then 1 else 0)))
       | _ \<Rightarrow> Unmodelled))"

text \<open>
  \<open>calculateAverageSessionTime(events)\<close>, for an array \<open>events\<close>:
  \<open>Math.round(totalTime / sessions.length / 1000)\<close>.
\<close>

definition calculateAverageSessionTime :: "jsval list \<Rightarrow> double outcome" where
  "calculateAverageSessionTime evs =
     obind (filter_o (name_is ''session_end'') evs) (\<lambda>sessions.
       if length sessions = 0 then Returns (Num 0)
       else obind (fold_o add_duration sessions (Num 0)) (\<lambda>totalTime.
              Returns (Math_round
                (ddiv (ddiv totalTime (fl (of_nat (length sessions)))) (Num 1000)))))"

record summary =
  totalEvents :: nat
  totalClicks :: nat
  categories :: "string \<rightharpoonup> jsval"
  averageSessionTime :: double

text \<open>
  \<open>getSummary\<close>. A loaded value that is not an array has no \<open>filter\<close> method, and the
  call throws a \<open>TypeError\<close>.
\<close>

definition summarize :: "platform \<Rightarrow> jsval \<Rightarrow> summary outcome" where
  "summarize p loaded =
     (case loaded of
        JArr evs \<Rightarrow>
          obind (filter_o (name_is ''link_click'') evs) (\<lambda>clicks.
          obind (fold_o (count_click p) clicks Map.empty) (\<lambda>cats.
          obind (calculateAverageSessionTime evs) (\<lambda>avg.
            Returns \<lparr>totalEvents = length evs, totalClicks = length clicks,
                     categories = cats, averageSessionTime = avg\<rparr>)))
      | _ \<Rightarrow> Throws TypeError)"

definition getSummary :: "platform \<Rightarrow> env \<Rightarrow> world \<Rightarrow> summary outcome \<times> world" where
  "getSummary p env w =
     (let (loaded, w') = loadFromStorage p env w in (summarize p loaded, w'))"

section \<open>Counter animation\<close>

text \<open>
  The variables that the interval callback of \<open>animateNumber\<close> closes over, the timer
  (\<open>True\<close> until \<open>clearInterval\<close>), and the text of the element.
\<close>

record counter =
  target :: double
  increment :: double
  current :: double
  timer :: bool
  textContent :: string

definition default_duration :: double where
  "default_duration = Num 2000"

text \<open>
  \<open>animateNumber(element, target, duration = 2000)\<close>, given the text the element
  shows before: \<open>increment = target / (duration / 16)\<close>.
\<close>

definition animateNumber :: "string \<Rightarrow> double \<Rightarrow> double \<Rightarrow> counter" where
  "animateNumber text0 tgt duration =
     \<lparr>target = tgt, increment = ddiv tgt (ddiv duration (Num 16)),
      current = Num 0, timer = True, textContent = text0\<rparr>"

text \<open>One run of the interval callback; a cleared timer does not fire.\<close>

definition tick :: "platform \<Rightarrow> counter \<Rightarrow> counter" where
  "tick p c =
     (if \<not> timer c then c
      else
        (let cur = dadd (current c) (increment c);
             reached = dge cur (target c);
             cur' = (if reached then target c else cur)
         in c\<lparr>current := cur', timer := \<not> reached,
                textContent := toLocaleString p (Math_floor cur')\<rparr>))"

definition ticks :: "platform \<Rightarrow> nat \<Rightarrow> counter \<Rightarrow> counter" where
  "ticks p n c = (tick p ^^ n) c"

section \<open>Theme\<close>

definition getStoredTheme :: "env \<Rightarrow> world \<Rightarrow> js_error + string option" where
  "getStoredTheme env w = getItem env ''linkpro_theme'' w"

definition storeTheme :: "env \<Rightarrow> string \<Rightarrow> world \<Rightarrow> completion \<times> world" where
  "storeTheme env theme w =
     (case setItem env ''linkpro_theme'' theme w of
        Inl e \<Rightarrow> (Threw e, w)
      | Inr w' \<Rightarrow> (Done, w'))"

definition updateThemeIcon :: "env \<Rightarrow> string \<Rightarrow> world \<Rightarrow> world" where
  "updateThemeIcon env theme w =
     (case themeIcon w of
        None \<Rightarrow> w
      | Some old \<Rightarrow>
          (let isDark = (theme = ''dark'' \<or> (theme = ''system'' \<and> prefers_dark env))
           in w\<lparr>themeIcon := Some (if isDark then ''fas fa-sun'' else ''fas fa-moon'')\<rparr>))"

definition applyTheme :: "env \<Rightarrow> string \<Rightarrow> world \<Rightarrow> world" where
  "applyTheme env theme w =
     updateThemeIcon env theme
       (if theme = ''system''
        then w\<lparr>dataTheme := Some (if prefers_dark env then ''dark'' else ''light'')\<rparr>
        else w\<lparr>dataTheme := Some theme\<rparr>)"

definition setupThemeToggle :: "world \<Rightarrow> world" where
  "setupThemeToggle w =
     (if \<not> themeToggle w then w
      else w\<lparr>listeners := listeners w @ [Click_themeToggle]\<rparr>)"

definition watchSystemTheme :: "world \<Rightarrow> world" where
  "watchSystemTheme w = w\<lparr>listeners := listeners w @ [Change_systemTheme]\<rparr>"

text \<open>
  \<open>Theme.init\<close>: \<open>getStoredTheme() || 'system'\<close>, where \<open>null\<close> and the empty text
  are falsy. The read is not guarded: a refusing \<open>localStorage\<close> throws out of \<open>init\<close>.
\<close>

definition Theme_init :: "env \<Rightarrow> world \<Rightarrow> completion \<times> world" where
  "Theme_init env w =
     (case getStoredTheme env w of
        Inl e \<Rightarrow> (Threw e, w)
      | Inr stored \<Rightarrow>
          (let theme = (case stored of
                          None \<Rightarrow> ''system''
                        | Some s \<Rightarrow> if s = [] then ''system'' else s);
               w1 = w\<lparr>currentTheme := theme\<rparr>;
               w2 = applyTheme env theme w1
           in (Done, watchSystemTheme (setupThemeToggle w2))))"

text \<open>
  The click listener of the toggle. \<open>storeTheme\<close> is not guarded: when the write
  throws, the listener ends there, after \<open>currentTheme\<close> has changed.
\<close>

definition themeToggle_click :: "platform \<Rightarrow> env \<Rightarrow> world \<Rightarrow> completion \<times> world" where
  "themeToggle_click p env w =
     (let theme = (if currentTheme w = ''light'' then ''dark'' else ''light'');
          w1 = w\<lparr>currentTheme := theme\<rparr>
      in case storeTheme env theme w1 of
           (Threw e, w2) \<Rightarrow> (Threw e, w2)
         | (Done, w2) \<Rightarrow>
             trackEvent p env ''theme_change'' [(''theme'', JStr theme)]
               (applyTheme env theme w2))"

text \<open>The listener for a change of the system colour scheme.\<close>

definition systemTheme_change :: "env \<Rightarrow> world \<Rightarrow> world" where
  "systemTheme_change env w =
     (if currentTheme w = ''system'' then applyTheme env ''system'' w else w)"

text \<open>The theme is one of the two explicit ones.\<close>

definition explicit_theme :: "world \<Rightarrow> bool" where
  "explicit_theme w = (currentTheme w = ''light'' \<or> currentTheme w = ''dark'')"

section \<open>Reading a log\<close>

text \<open>The event that the call \<open>c\<close> of a session with identifier \<open>sid\<close> records.\<close>

definition event_of_call :: "string \<Rightarrow> call \<Rightarrow> jsval" where
  "event_of_call sid c = make_event (fst c) sid (fst (snd c)) (snd (snd c))"

text \<open>Whether \<open>e.name\<close> is the text \<open>n\<close>.\<close>

definition named :: "string \<Rightarrow> jsval \<Rightarrow> bool" where
  "named n e = (get_prop e F_name = Returns (JStr n))"

text \<open>\<open>e.data.category\<close> and \<open>e.data.duration\<close>.\<close>

definition category_of :: "jsval \<Rightarrow> jsval outcome" where
  "category_of e = obind (get_prop e F_data) (\<lambda>d. get_prop d F_category)"

definition duration_of :: "jsval \<Rightarrow> jsval outcome" where
  "duration_of e = obind (get_prop e F_data) (\<lambda>d. get_prop d F_duration)"

text \<open>
  An entry as the module records it: its \<open>name\<close> can be read; a \<open>link_click\<close> has a
  text as category; a \<open>session_end\<close> has a number as duration.
\<close>

definition summarizable :: "jsval \<Rightarrow> bool" where
  "summarizable e =
     (case get_prop e F_name of
        Returns v \<Rightarrow>
          (if v = JStr ''link_click''
           then (case category_of e of Returns (JStr k) \<Rightarrow> True | _ \<Rightarrow> False)
           else if v = JStr ''session_end''
           then (case duration_of e of Returns (JNum n) \<Rightarrow> True | _ \<Rightarrow> False)
           else True)
      | _ \<Rightarrow> False)"

text \<open>The number of \<open>link_click\<close> entries of a log whose category is the text \<open>k\<close>.\<close>

definition clicks_in :: "string \<Rightarrow> jsval list \<Rightarrow> nat" where
  "clicks_in k evs =
     length (filter (\<lambda>e. named ''link_click'' e \<and> category_of e = Returns (JStr k)) evs)"

text \<open>
  Whether no \<open>link_click\<close> entry of a log has a category that \<open>Object.prototype\<close>
  defines.
\<close>

definition plain_categories :: "jsval list \<Rightarrow> bool" where
  "plain_categories evs =
     list_all (\<lambda>e. case category_of e of
                      Returns (JStr k) \<Rightarrow> named ''link_click'' e \<longrightarrow> k \<notin> set object_prototype_names
                    | _ \<Rightarrow> True) evs"

text \<open>The object that holds a count for every key whose count is not zero.\<close>

definition counts_object :: "(string \<Rightarrow> nat) \<Rightarrow> (string \<rightharpoonup> jsval)" where
  "counts_object c = (\<lambda>k. if c k = 0 then None else Some (JNum (int (c k))))"

text \<open>The durations of the \<open>session_end\<close> entries of a log, in order.\<close>

definition the_duration :: "jsval \<Rightarrow> int" where
  "the_duration e = (case duration_of e of Returns (JNum n) \<Rightarrow> n | _ \<Rightarrow> 0)"

definition session_durations :: "jsval list \<Rightarrow> int list" where
  "session_durations evs = map the_duration (filter (named ''session_end'') evs)"

section \<open>A sample page\<close>

definition sample_env :: "int \<Rightarrow> env" where
  "sample_env t =
     \<lparr>now = t, fresh_id = ''linkpro_1_abc'', fresh_session_id = ''session_1_xyz'',
      href = ''https://example.org/'', referrer = [], deviceInfo = JObj [],
      prefers_dark = True, getItem_fault = None, setItem_fault = None\<rparr>"

definition sample_world :: world where
  "sample_world =
     \<lparr>Analytics = None, localStorage = Map.empty, console = [], listeners = [],
      currentTheme = [], dataTheme = None, themeToggle = True,
      themeIcon = Some ''fas fa-moon''\<rparr>"

definition sample_session :: analytics where
  "sample_session = \<lparr>sessionId = ''session_1_xyz'', startTime = 1000, events = []\<rparr>"

definition sample_calls :: "call list" where
  "sample_calls =
     [(sample_env 1001, ''page_view'', [(''url'', JStr ''https://caller.example/'')]),
      (sample_env 1002, ''link_click'', [(''category'', JStr ''music'')])]"

definition sample_clicks :: "jsval list" where
  "sample_clicks =
     [JObj [(''name'', JStr ''link_click''), (''data'', JObj [(''category'', JStr ''social'')])],
      JObj [(''name'', JStr ''page_view''), (''data'', JObj [])],
      JObj [(''name'', JStr ''link_click''), (''data'', JObj [(''category'', JStr ''music'')])],
      JObj [(''name'', JStr ''link_click''), (''data'', JObj [(''category'', JStr ''social'')])],
      JObj [(''name'', JStr ''session_end''), (''data'', JObj [(''duration'', JNum 2400)])],
      JObj [(''name'', JStr ''link_click''), (''data'', JObj [(''category'', JStr ''music'')])],
      JObj [(''name'', JStr ''link_click''), (''data'', JObj [(''category'', JStr ''social'')])],
      JObj [(''name'', JStr ''session_end''), (''data'', JObj [(''duration'', JNum 601)])]]"

text \<open>
  A platform that knows the text of three values: the empty array, the log of
  \<open>sample_calls\<close> and \<open>sample_clicks\<close>. Every other text fails to parse.
\<close>

definition sample_platform :: platform where
  "sample_platform =
     \<lparr>JSON_stringify =
        (\<lambda>v. if v = JArr [] then ''[]''
             else if v = JArr (map (event_of_call ''session_1_xyz'') sample_calls)
             then ''[page_view,link_click]''
             else if v = JArr sample_clicks then ''[clicks]''
             else ''[...]''),
      JSON_parse =
        (\<lambda>s. if s = ''[]'' then Some (JArr [])
             else if s = ''[page_view,link_click]''
             then Some (JArr (map (event_of_call ''session_1_xyz'') sample_calls))
             else if s = ''[clicks]'' then Some (JArr sample_clicks)
             else None),
      toLocaleString =
        (\<lambda>n. if n = Num 1000 then ''1,000'' else if n = Num 8 then ''8'' else ''#''),
      Function_toString =
        (\<lambda>k. if k = ''constructor'' then ''function Object() { [native code] }''
             else ''function '' @ k @ ''() { [native code] }'')\<rparr>"

text \<open>
  A log with clicks on links whose categories are names that \<open>Object.prototype\<close>
  defines.
\<close>

definition sample_inherited :: "jsval list" where
  "sample_inherited =
     [JObj [(''name'', JStr ''link_click''), (''data'', JObj [(''category'', JStr ''constructor'')])],
      JObj [(''name'', JStr ''link_click''), (''data'', JObj [(''category'', JStr ''social'')])],
      JObj [(''name'', JStr ''link_click''), (''data'', JObj [(''category'', JStr ''constructor'')])],
      JObj [(''name'', JStr ''link_click''), (''data'', JObj [(''category'', JStr ''__proto__'')])]]"

definition sample_counter :: counter where
  "sample_counter = animateNumber ''0'' (Num 1000) default_duration"


text \<open>The sample page after \<open>Theme.init\<close>, with an initialised \<open>Analytics\<close> object.\<close>

definition sample_themed :: world where
  "sample_themed = snd (Theme_init (sample_env 1) (sample_world\<lparr>Analytics := Some sample_session\<rparr>))"

text \<open>The sample page after \<open>Analytics.init\<close> and one click on a link.\<close>

definition sample_visited :: world where
  "sample_visited =
     snd (trackEvents sample_platform
            [(sample_env 1002, ''link_click'', [(''category'', JStr ''music'')])]
            (snd (Analytics_init sample_platform (sample_env 1000) (sample_env 1001)
                    sample_world)))"

section \<open>Properties of the rounding\<close>

lemma round_half_even_of_int [simp]: "round_half_even (of_int n) = n"
  by (simp add: round_half_even_def)

lemma round_half_even_cases:
  "round_half_even x = \<lfloor>x\<rfloor> \<or> round_half_even x = \<lfloor>x\<rfloor> + 1"
  by (simp add: round_half_even_def Let_def)

lemma round_half_even_ge_floor: "\<lfloor>x\<rfloor> \<le> round_half_even x"
  using round_half_even_cases [of x] by auto

lemma round_half_even_mono:
  assumes "x \<le> y"
  shows "round_half_even x \<le> round_half_even y"
proof (cases "\<lfloor>x\<rfloor> = \<lfloor>y\<rfloor>")
  case True
  then have "x - of_int \<lfloor>x\<rfloor> \<le> y - of_int \<lfloor>y\<rfloor>" using assms by simp
  then show ?thesis
    using True by (auto simp: round_half_even_def Let_def)
next
  case False
  then have "\<lfloor>x\<rfloor> < \<lfloor>y\<rfloor>" using assms floor_mono [of x y] by linarith
  then show ?thesis
    using round_half_even_cases [of x] round_half_even_ge_floor [of y] by linarith
qed

lemma exponent_bounds:
  assumes "x \<noteq> 0"
  shows "2 powi exponent_of x \<le> \<bar>x\<bar>" and "\<bar>x\<bar> < 2 powi (exponent_of x + 1)"
proof -
  have "2 powi exponent_of x \<le> \<bar>x\<bar> \<and> \<bar>x\<bar> < 2 powi (exponent_of x + 1)"
  proof (cases "1 \<le> \<bar>x\<bar>")
    case True
    define n where "n = \<lfloor>\<bar>x\<bar>\<rfloor>"
    have n: "0 < n" using True by (simp add: n_def)
    define b where "b = bitlen n"
    from bitlen_bounds [OF n] have bb: "2 ^ nat (b - 1) \<le> n" "n < 2 ^ nat b"
      by (simp_all add: b_def)
    have b1: "1 \<le> b" using n by (simp add: b_def bitlen_alt_def)
    have e: "exponent_of x = b - 1" using True by (simp add: exponent_of_def b_def n_def)
    have "(2::rat) powi (b - 1) = of_int (2 ^ nat (b - 1))"
      using b1 by (simp add: power_int_nonneg_exp)
    also have "\<dots> \<le> of_int n" using bb(1) by (simp only: of_int_le_iff)
    also have "\<dots> \<le> \<bar>x\<bar>" unfolding n_def by linarith
    finally have lo: "2 powi (b - 1) \<le> \<bar>x\<bar>" .
    have "\<bar>x\<bar> < of_int (n + 1)" unfolding n_def by simp linarith
    also have "\<dots> \<le> of_int (2 ^ nat b)" using bb(2) by (simp only: of_int_le_iff; simp)
    also have "\<dots> = (2::rat) powi b" using b1 by (simp add: power_int_nonneg_exp)
    finally have hi: "\<bar>x\<bar> < 2 powi b" .
    from lo hi e show ?thesis by simp
  next
    case False
    then have x1: "\<bar>x\<bar> < 1" by simp
    have x0: "0 < \<bar>x\<bar>" using assms by simp
    define y where "y = 1 / \<bar>x\<bar>"
    have y1: "1 < y" using x0 x1 by (simp add: y_def)
    define n where "n = \<lceil>y\<rceil> - 1"
    have n: "0 < n" using y1 unfolding n_def by linarith
    have ny: "of_int n < y" "y \<le> of_int n + 1"
      unfolding n_def by linarith+
    define b where "b = bitlen n"
    from bitlen_bounds [OF n] have bb: "2 ^ nat (b - 1) \<le> n" "n < 2 ^ nat b"
      by (simp_all add: b_def)
    have b1: "1 \<le> b" using n by (simp add: b_def bitlen_alt_def)
    have e: "exponent_of x = - b" using False by (simp add: exponent_of_def b_def n_def y_def)
    have "y \<le> of_int (n + 1)" using ny(2) by simp
    also have "\<dots> \<le> of_int (2 ^ nat b)" using bb(2) by (simp only: of_int_le_iff; simp)
    also have "\<dots> = (2::rat) powi b" using b1 by (simp add: power_int_nonneg_exp)
    finally have "y \<le> 2 powi b" .
    then have "1 / (2 powi b) \<le> 1 / y"
      using y1 by (intro divide_left_mono) (auto intro!: mult_pos_pos)
    then have lo: "2 powi (- b) \<le> \<bar>x\<bar>"
      using x0 by (simp add: y_def power_int_minus_divide)
    have "(2::rat) powi (b - 1) = of_int (2 ^ nat (b - 1))"
      using b1 by (simp add: power_int_nonneg_exp)
    also have "\<dots> \<le> of_int n" using bb(1) by (simp only: of_int_le_iff)
    also have "\<dots> < y" by (rule ny(1))
    finally have "2 powi (b - 1) < y" .
    then have "1 / y < 1 / (2 powi (b - 1))"
      using y1 by (intro divide_strict_left_mono) (auto intro!: mult_pos_pos)
    then have hi: "\<bar>x\<bar> < 2 powi (- b + 1)"
      using x0 by (simp add: y_def power_int_minus_divide [symmetric])
    from lo hi e show ?thesis by simp
  qed
  then show "2 powi exponent_of x \<le> \<bar>x\<bar>" and "\<bar>x\<bar> < 2 powi (exponent_of x + 1)" by simp_all
qed



lemma exponent_mono:
  assumes "x \<noteq> 0" "\<bar>x\<bar> \<le> \<bar>y\<bar>"
  shows "exponent_of x \<le> exponent_of y"
proof -
  have y: "y \<noteq> 0" using assms by auto
  have "(2::rat) powi exponent_of x < 2 powi (exponent_of y + 1)"
    using exponent_bounds(1) [OF assms(1)] exponent_bounds(2) [OF y] assms(2) by simp
  then have "exponent_of x < exponent_of y + 1"
    by (metis power_int_increasing not_less one_le_numeral)
  then show ?thesis by simp
qed

lemma quantum_pos [simp]: "0 < quantum x"
  by (simp add: quantum_def)

lemma quantum_nonneg [simp]: "0 \<le> quantum x"
  by (simp add: quantum_def)

lemma rnd_0 [simp]: "rnd 0 = 0"
  by (simp add: rnd_def round_half_even_def)

lemma rnd_nonneg:
  assumes "0 \<le> x"
  shows "0 \<le> rnd x"
proof -
  have "0 < quantum x" by simp
  then have "0 \<le> x / quantum x" using assms by (intro divide_nonneg_pos)
  then have "round_half_even 0 \<le> round_half_even (x / quantum x)"
    by (rule round_half_even_mono)
  moreover have "round_half_even 0 = 0" using round_half_even_of_int [of 0] by simp
  ultimately have "0 \<le> round_half_even (x / quantum x)" by simp
  then show ?thesis unfolding rnd_def by (intro mult_nonneg_nonneg) simp_all
qed

text \<open>A multiple of the quantum is not changed.\<close>

lemma rnd_multiple:
  assumes "x = of_int k * quantum x"
  shows "rnd x = x"
proof -
  have "x / quantum x = of_int k"
    using assms quantum_pos [of x] by (metis nonzero_mult_div_cancel_right less_irrefl)
  then show ?thesis using assms by (simp add: rnd_def)
qed

lemma pow2_int:
  assumes "0 \<le> d"
  shows "(2::rat) powi d = of_int (2 ^ nat d)"
  using assms by (simp add: power_int_nonneg_exp)

text \<open>A number with a significand of at most 53 bits is not changed.\<close>

lemma rnd_fixpoint:
  assumes "0 < m" "m \<le> 2 ^ 53" "- 1074 \<le> t"
  shows "rnd (of_int m * 2 powi t) = of_int m * 2 powi t"
proof -
  define x :: rat where "x = of_int m * 2 powi t"
  have xpos: "0 < x" using assms(1) by (simp add: x_def)
  then have x0: "x \<noteq> 0" by simp
  define e where "e = exponent_of x"
  define q where "q = max e (- 1022) - 52"
  have qx: "quantum x = 2 powi q" by (simp add: quantum_def q_def e_def)
  note b = exponent_bounds [OF x0, folded e_def]
  have "\<exists>k. x = of_int k * 2 powi q"
  proof (cases "q \<le> t")
    case True
    have "x = of_int m * (2 powi (t - q) * 2 powi q)"
      by (simp add: x_def power_int_add [symmetric])
    also have "\<dots> = of_int (m * 2 ^ nat (t - q)) * 2 powi q"
      using True by (simp add: pow2_int)
    finally show ?thesis by blast
  next
    case False
    then have tq: "t < q" by simp
    then have q: "q = e - 52" "- 1022 < e" using assms(3) by (auto simp: q_def max_def split: if_splits)
    have "(2::rat) powi e \<le> of_int m * 2 powi t" using b(1) xpos by (simp add: x_def)
    then have "(2::rat) powi e / 2 powi t \<le> of_int m"
      by (simp add: field_simps)
    then have "(2::rat) powi (e - t) \<le> of_int m"
      by (simp add: power_int_diff)
    also have "\<dots> \<le> of_int (2 ^ 53)" using assms(2) by (simp only: of_int_le_iff)
    also have "\<dots> = (2::rat) powi 53" by simp
    finally have "e - t \<le> 53"
      by (metis power_int_strict_increasing not_less one_less_numeral_iff semiring_norm(76))
    then have t: "t = q - 1" using tq q by simp
    then have et: "e - t = 53" using q by simp
    have "(2::rat) powi 53 \<le> of_int m"
      using \<open>(2::rat) powi (e - t) \<le> of_int m\<close> et by simp
    then have "(2::rat) ^ 53 \<le> of_int m" by simp
    then have "(of_int (2 ^ 53) :: rat) \<le> of_int m" by simp
    then have "2 ^ 53 \<le> m" by (simp only: of_int_le_iff)
    then have m: "m = 2 ^ 53" using assms(2) by simp
    have "x = of_int (2 ^ 53) * 2 powi (q - 1)" by (simp add: x_def m t)
    also have "\<dots> = of_int (2 ^ 52) * (2 * 2 powi (q - 1))" by simp
    also have "2 * (2::rat) powi (q - 1) = 2 powi q"
      by (simp add: power_int_diff)
    finally show ?thesis by blast
  qed
  then obtain k where "x = of_int k * quantum x" using qx by auto
  then have "rnd x = x" by (rule rnd_multiple)
  then show ?thesis by (simp add: x_def)
qed


lemma rnd_le_pow:
  assumes "0 < x"
  shows "rnd x \<le> 2 powi (max (exponent_of x) (- 1022) + 1)"
proof -
  define E where "E = max (exponent_of x) (- 1022)"
  have q: "quantum x = 2 powi (E - 52)" by (simp add: quantum_def E_def)
  have x0: "x \<noteq> 0" using assms by simp
  have "x < 2 powi (exponent_of x + 1)" using exponent_bounds(2) [OF x0] assms by simp
  also have "\<dots> \<le> 2 powi (E + 1)"
    by (rule power_int_increasing) (simp_all add: E_def)
  finally have "x \<le> 2 powi (E + 1)" by simp
  then have "x / quantum x \<le> 2 powi (E + 1) / quantum x"
    by (intro divide_right_mono) simp_all
  also have "\<dots> = 2 powi 53"
    by (simp add: q power_int_diff [symmetric])
  also have "\<dots> = of_int (2 ^ 53)" by simp
  finally have "round_half_even (x / quantum x) \<le> round_half_even (of_int (2 ^ 53))"
    by (rule round_half_even_mono)
  then have "round_half_even (x / quantum x) \<le> 2 ^ 53"
    by (simp only: round_half_even_of_int)
  then have "(of_int (round_half_even (x / quantum x)) :: rat) \<le> of_int (2 ^ 53)"
    by (simp only: of_int_le_iff)
  then have "rnd x \<le> of_int (2 ^ 53) * quantum x"
    unfolding rnd_def by (intro mult_right_mono) simp_all
  also have "\<dots> = 2 powi 53 * 2 powi (E - 52)" by (simp add: q)
  also have "\<dots> = 2 powi (E + 1)"
    using power_int_add [of "2::rat" 53 "E - 52"] by (simp add: add.commute)
  finally show ?thesis by (simp add: E_def)
qed

lemma rnd_ge_pow:
  assumes "0 < y" "- 1022 \<le> exponent_of y"
  shows "2 powi exponent_of y \<le> rnd y"
proof -
  define e where "e = exponent_of y"
  have q: "quantum y = 2 powi (e - 52)" using assms(2) by (simp add: quantum_def e_def max_def)
  have y0: "y \<noteq> 0" using assms by simp
  have "2 powi e \<le> y" using exponent_bounds(1) [OF y0] assms(1) by (simp add: e_def)
  then have "2 powi e / quantum y \<le> y / quantum y"
    by (intro divide_right_mono) simp_all
  moreover have "2 powi e / quantum y = of_int (2 ^ 52)"
    by (simp add: q power_int_diff [symmetric])
  ultimately have "round_half_even (of_int (2 ^ 52)) \<le> round_half_even (y / quantum y)"
    by (intro round_half_even_mono) simp
  then have "2 ^ 52 \<le> round_half_even (y / quantum y)"
    by (simp only: round_half_even_of_int)
  then have "(of_int (2 ^ 52) :: rat) \<le> of_int (round_half_even (y / quantum y))"
    by (simp only: of_int_le_iff)
  then have "of_int (2 ^ 52) * quantum y \<le> rnd y"
    unfolding rnd_def by (intro mult_right_mono) simp_all
  moreover have "of_int (2 ^ 52) * quantum y = 2 powi e"
    using power_int_add [of "2::rat" 52 "e - 52"] by (simp add: q)
  ultimately show ?thesis by (simp add: e_def)
qed

text \<open>Rounding is monotone on the non-negative numbers.\<close>

lemma rnd_mono:
  assumes "0 \<le> x" "x \<le> y"
  shows "rnd x \<le> rnd y"
proof (cases "x = 0")
  case True
  then show ?thesis using rnd_nonneg [of y] assms by simp
next
  case False
  then have x: "0 < x" and y: "0 < y" using assms by simp_all
  have e: "exponent_of x \<le> exponent_of y"
    using exponent_mono [of x y] x assms by simp
  show ?thesis
  proof (cases "max (exponent_of x) (- 1022) = max (exponent_of y) (- 1022)")
    case True
    then have q: "quantum x = quantum y" by (simp add: quantum_def)
    have "x / quantum y \<le> y / quantum y"
      using assms(2) by (intro divide_right_mono) simp_all
    then have "round_half_even (x / quantum y) \<le> round_half_even (y / quantum y)"
      by (rule round_half_even_mono)
    then have "(of_int (round_half_even (x / quantum y)) :: rat)
        \<le> of_int (round_half_even (y / quantum y))"
      by (simp only: of_int_le_iff)
    then show ?thesis
      unfolding rnd_def q by (intro mult_right_mono) simp_all
  next
    case False
    then have lt: "max (exponent_of x) (- 1022) < exponent_of y" and n: "- 1022 \<le> exponent_of y"
      using e by (auto simp: max_def split: if_splits)
    have "rnd x \<le> 2 powi (max (exponent_of x) (- 1022) + 1)" using x by (rule rnd_le_pow)
    also have "\<dots> \<le> 2 powi exponent_of y"
    proof (rule power_int_increasing)
      show "max (exponent_of x) (- 1022) + 1 \<le> exponent_of y" using lt by linarith
    qed simp
    also have "\<dots> \<le> rnd y" using y n by (rule rnd_ge_pow)
    finally show ?thesis .
  qed
qed

lemma fl_finite:
  assumes "0 \<le> x" "rnd x < 2 powi 1024"
  shows "fl x = Num (rnd x)"
proof -
  have "0 \<le> rnd x" using assms(1) by (rule rnd_nonneg)
  moreover have "(0::rat) < 2 powi 1024" by simp
  ultimately have "\<not> rnd x \<le> - (2 powi 1024)" by linarith
  then show ?thesis using assms(2) by (simp add: fl_def Let_def)
qed


lemma exponent_less:
  assumes "0 < x" "x < 2 powi a"
  shows "exponent_of x < a"
proof -
  have x0: "x \<noteq> 0" using assms(1) by simp
  have "2 powi exponent_of x \<le> x" using exponent_bounds(1) [OF x0] assms(1) by simp
  then have "(2::rat) powi exponent_of x < 2 powi a" using assms(2) by simp
  then show ?thesis
    by (metis power_int_increasing not_less one_le_numeral)
qed

lemma rnd_less_pow:
  assumes "0 < x" "x < 2 powi a" "- 1021 \<le> a"
  shows "rnd x \<le> 2 powi a"
proof -
  have "exponent_of x < a" using assms(1,2) by (rule exponent_less)
  then have m: "max (exponent_of x) (- 1022) + 1 \<le> a" using assms(3) by linarith
  have "rnd x \<le> 2 powi (max (exponent_of x) (- 1022) + 1)" using assms(1) by (rule rnd_le_pow)
  also have "\<dots> \<le> 2 powi a" using m by (intro power_int_increasing) simp_all
  finally show ?thesis .
qed

lemma rnd_of_int:
  assumes "0 \<le> n" "n \<le> 2 ^ 53"
  shows "rnd (of_int n) = of_int n"
proof (cases "n = 0")
  case True
  then show ?thesis by simp
next
  case False
  then have "0 < n" using assms(1) by simp
  from rnd_fixpoint [OF this assms(2), of 0] show ?thesis by simp
qed

lemma fl_small:
  assumes "0 \<le> x" "x \<le> 2 ^ 53"
  shows "fl x = Num (rnd x)" and "0 \<le> rnd x" and "rnd x \<le> 2 ^ 53"
proof -
  have "rnd x \<le> rnd (of_int (2 ^ 53))" using assms by (intro rnd_mono) simp_all
  also have "\<dots> = of_int (2 ^ 53)" by (rule rnd_of_int) simp_all
  finally show le: "rnd x \<le> 2 ^ 53" by simp
  have "(2::rat) ^ 53 < 2 powi 1024" by simp
  then have "rnd x < 2 powi 1024" using le by linarith
  then show "fl x = Num (rnd x)" using assms(1) by (intro fl_finite)
  show "0 \<le> rnd x" using assms(1) by (rule rnd_nonneg)
qed


section \<open>Properties of the analytics log\<close>

subsection \<open>Objects\<close>

lemma obj_get_Nil: "obj_get [] k = JUndefined"
  by (simp add: obj_get_def)

lemma obj_get_Cons: "obj_get ((k', v) # kvs) k = (if k = k' then v else obj_get kvs k)"
  by (simp add: obj_get_def)

lemma obj_get_obj_set: "obj_get (obj_set k v kvs) k' = (if k' = k then v else obj_get kvs k')"
  by (induction kvs) (auto simp: obj_get_def)

lemma make_event_name: "get_prop (make_event env sid n d) F_name = Returns (JStr n)"
  by (simp add: make_event_def obj_get_Cons)

lemma make_event_sessionId: "get_prop (make_event env sid n d) F_sessionId = Returns (JStr sid)"
  by (simp add: make_event_def obj_get_Cons)

lemma make_event_data:
  "get_prop (make_event env sid n d) F_data =
     Returns (JObj (obj_set ''url'' (JStr (href env)) (obj_set ''timestamp'' (JNum (now env)) d)))"
  by (simp add: make_event_def obj_get_Cons)

subsection \<open>One call of trackEvent\<close>

lemma saveToStorage_ok:
  assumes "Analytics w = Some a" "setItem_fault env = None"
  shows "saveToStorage p env w =
           w\<lparr>localStorage := (localStorage w)(trackingKey \<mapsto> JSON_stringify p (JArr (events a)))\<rparr>"
  using assms by (simp add: saveToStorage_def setItem_def)

lemma saveToStorage_fail:
  assumes "setItem_fault env = Some e"
  shows "saveToStorage p env w = w\<lparr>console := console w @ [Warn ''Analytics storage failed:'' e]\<rparr>"
  using assms by (simp add: saveToStorage_def setItem_def)

lemma saveToStorage_frame:
  "Analytics (saveToStorage p env w) = Analytics w"
  "listeners (saveToStorage p env w) = listeners w"
  "currentTheme (saveToStorage p env w) = currentTheme w"
  "dataTheme (saveToStorage p env w) = dataTheme w"
  "themeToggle (saveToStorage p env w) = themeToggle w"
  "themeIcon (saveToStorage p env w) = themeIcon w"
  by (cases "setItem_fault env"; simp add: saveToStorage_def setItem_def)+

lemma trackEvent_Done:
  assumes "Analytics w = Some a"
  shows "fst (trackEvent p env n d w) = Done"
  using assms by (simp add: trackEvent_def analytics_enabled_def Let_def)

lemma trackEvent_events:
  assumes "Analytics w = Some a"
  shows "Analytics (snd (trackEvent p env n d w)) =
           Some (a\<lparr>events := events a @ [make_event env (sessionId a) n d]\<rparr>)"
  using assms by (simp add: trackEvent_def analytics_enabled_def Let_def saveToStorage_frame)

lemma trackEvent_frame:
  "listeners (snd (trackEvent p env n d w)) = listeners w"
  "currentTheme (snd (trackEvent p env n d w)) = currentTheme w"
  "dataTheme (snd (trackEvent p env n d w)) = dataTheme w"
  "themeToggle (snd (trackEvent p env n d w)) = themeToggle w"
  "themeIcon (snd (trackEvent p env n d w)) = themeIcon w"
  by (cases "Analytics w"; simp add: trackEvent_def analytics_enabled_def Let_def saveToStorage_frame)+

lemma trackEvent_written:
  assumes "Analytics w = Some a" "setItem_fault env = None"
  shows "localStorage (snd (trackEvent p env n d w)) =
           (localStorage w)(trackingKey \<mapsto>
              JSON_stringify p (JArr (events a @ [make_event env (sessionId a) n d])))"
  using assms by (simp add: trackEvent_def analytics_enabled_def Let_def saveToStorage_ok)

lemma trackEvent_not_written:
  assumes "Analytics w = Some a" "setItem_fault env = Some e"
  shows "localStorage (snd (trackEvent p env n d w)) = localStorage w"
    and "console (snd (trackEvent p env n d w)) =
           console w @ [Warn ''Analytics storage failed:'' e,
                        Log ''Analytics Event:'' (make_event env (sessionId a) n d)]"
  using assms by (simp_all add: trackEvent_def analytics_enabled_def Let_def saveToStorage_fail)

lemma loadFromStorage_parsed:
  assumes "getItem_fault env = None" "localStorage w trackingKey = Some s" "s \<noteq> []"
    "JSON_parse p s = Some v"
  shows "loadFromStorage p env w = (v, w)"
  using assms by (simp add: loadFromStorage_def getItem_def)

subsection \<open>A run of calls\<close>

lemma trackEvents_run:
  assumes "Analytics w = Some a"
  shows "fst (trackEvents p calls w) = replicate (length calls) Done
       \<and> Analytics (snd (trackEvents p calls w)) =
           Some (a\<lparr>events := events a @ map (event_of_call (sessionId a)) calls\<rparr>)
       \<and> listeners (snd (trackEvents p calls w)) = listeners w"
  using assms
proof (induction calls arbitrary: w a)
  case Nil
  then show ?case by simp
next
  case (Cons c cs)
  obtain env n d where c: "c = (env, n, d)" by (cases c) auto
  let ?w1 = "snd (trackEvent p env n d w)"
  have a1: "Analytics ?w1 = Some (a\<lparr>events := events a @ [make_event env (sessionId a) n d]\<rparr>)"
    using Cons.prems by (rule trackEvent_events)
  have d1: "fst (trackEvent p env n d w) = Done"
    using Cons.prems by (rule trackEvent_Done)
  from Cons.IH [OF a1] d1 show ?case
    by (simp add: c split_beta Let_def event_of_call_def trackEvent_frame)
qed

lemma trackEvents_written:
  assumes "Analytics w = Some a" "calls \<noteq> []" "\<forall>c \<in> set calls. setItem_fault (fst c) = None"
  shows "localStorage (snd (trackEvents p calls w)) trackingKey =
           Some (JSON_stringify p (JArr (events a @ map (event_of_call (sessionId a)) calls)))"
  using assms
proof (induction calls arbitrary: w a)
  case Nil
  then show ?case by simp
next
  case (Cons c cs)
  obtain env n d where c: "c = (env, n, d)" by (cases c) auto
  let ?w1 = "snd (trackEvent p env n d w)"
  let ?a1 = "a\<lparr>events := events a @ [make_event env (sessionId a) n d]\<rparr>"
  have a1: "Analytics ?w1 = Some ?a1"
    using Cons.prems(1) by (rule trackEvent_events)
  have ok: "setItem_fault env = None" using Cons.prems(3) c by simp
  show ?case
  proof (cases "cs = []")
    case True
    then show ?thesis
      using trackEvent_written [OF Cons.prems(1) ok, of p n d]
      by (simp add: c split_beta Let_def event_of_call_def)
  next
    case False
    have "\<forall>c \<in> set cs. setItem_fault (fst c) = None" using Cons.prems(3) by simp
    from Cons.IH [OF a1 False this] show ?thesis
      by (simp add: c split_beta Let_def event_of_call_def)
  qed
qed

text \<open>
  C1. In a session whose in-memory sequence starts empty, after a run of N calls of
  \<open>trackEvent\<close> (N at least 1) whose storage writes all succeed, no call has thrown
  and the text stored under the tracking key is the serialisation of an array of
  exactly N entries: the events of the calls, in call order, the i-th with the name
  of the i-th call, every one with the session identifier of the session. Where the
  parser inverts the serialiser on that array, \<open>loadFromStorage\<close> returns it.
\<close>

theorem trackEvents_persisted_log:
  assumes "Analytics w = Some a" and "events a = []" and "calls \<noteq> []"
    and "\<forall>c \<in> set calls. setItem_fault (fst c) = None"
    and "evs = map (event_of_call (sessionId a)) calls"
    and "w' = snd (trackEvents p calls w)"
  shows "fst (trackEvents p calls w) = replicate (length calls) Done
     \<and> localStorage w' trackingKey = Some (JSON_stringify p (JArr evs))
     \<and> length evs = length calls
     \<and> (\<forall>i < length calls.
           get_prop (evs ! i) F_name = Returns (JStr (fst (snd (calls ! i))))
         \<and> get_prop (evs ! i) F_sessionId = Returns (JStr (sessionId a)))
     \<and> (\<forall>env'. getItem_fault env' = None \<and> JSON_stringify p (JArr evs) \<noteq> []
              \<and> JSON_parse p (JSON_stringify p (JArr evs)) = Some (JArr evs)
           \<longrightarrow> fst (loadFromStorage p env' w') = JArr evs)"
proof -
  have run: "fst (trackEvents p calls w) = replicate (length calls) Done"
    using trackEvents_run [OF assms(1), of p calls] by simp
  have stored: "localStorage w' trackingKey = Some (JSON_stringify p (JArr evs))"
    using trackEvents_written [OF assms(1) assms(3) assms(4), of p] assms(2,5,6) by simp
  have fields: "\<forall>i < length calls.
           get_prop (evs ! i) F_name = Returns (JStr (fst (snd (calls ! i))))
         \<and> get_prop (evs ! i) F_sessionId = Returns (JStr (sessionId a))"
    by (simp add: assms(5) event_of_call_def make_event_name make_event_sessionId)
  have reread: "\<forall>env'. getItem_fault env' = None \<and> JSON_stringify p (JArr evs) \<noteq> []
              \<and> JSON_parse p (JSON_stringify p (JArr evs)) = Some (JArr evs)
           \<longrightarrow> fst (loadFromStorage p env' w') = JArr evs"
    using stored by (simp add: loadFromStorage_parsed)
  from run stored fields reread show ?thesis
    by (simp add: assms(5))
qed

theorem trackEvents_persisted_log_witness:
  "fst (trackEvents sample_platform sample_calls (sample_world\<lparr>Analytics := Some sample_session\<rparr>))
     = [Done, Done]
   \<and> localStorage (snd (trackEvents sample_platform sample_calls
        (sample_world\<lparr>Analytics := Some sample_session\<rparr>))) trackingKey
     = Some ''[page_view,link_click]''
   \<and> fst (loadFromStorage sample_platform (sample_env 1003)
        (snd (trackEvents sample_platform sample_calls
           (sample_world\<lparr>Analytics := Some sample_session\<rparr>))))
     = JArr (map (event_of_call ''session_1_xyz'') sample_calls)
   \<and> length (map (event_of_call ''session_1_xyz'') sample_calls) = 2
   \<and> get_prop (map (event_of_call ''session_1_xyz'') sample_calls ! 0) F_name
     = Returns (JStr ''page_view'')
   \<and> get_prop (map (event_of_call ''session_1_xyz'') sample_calls ! 1) F_name
     = Returns (JStr ''link_click'')
   \<and> get_prop (map (event_of_call ''session_1_xyz'') sample_calls ! 0) F_sessionId
     = Returns (JStr ''session_1_xyz'')
   \<and> get_prop (map (event_of_call ''session_1_xyz'') sample_calls ! 1) F_sessionId
     = Returns (JStr ''session_1_xyz'')"
proof -
  have ok: "\<forall>c \<in> set sample_calls. setItem_fault (fst c) = None"
    by (simp add: sample_calls_def sample_env_def)
  have ne: "sample_calls \<noteq> []" by (simp add: sample_calls_def)
  have len: "length sample_calls = 2" by (simp add: sample_calls_def)
  have n0: "fst (snd (sample_calls ! 0)) = ''page_view''" by (simp add: sample_calls_def)
  have n1: "fst (snd (sample_calls ! Suc 0)) = ''link_click''" by (simp add: sample_calls_def)
  have rt: "JSON_stringify sample_platform (JArr (map (event_of_call ''session_1_xyz'') sample_calls))
      = ''[page_view,link_click]''"
    by (simp add: sample_platform_def sample_calls_def)
  have pr: "JSON_parse sample_platform ''[page_view,link_click]''
      = Some (JArr (map (event_of_call ''session_1_xyz'') sample_calls))"
    by (simp add: sample_platform_def)
  have gf: "getItem_fault (sample_env 1003) = None" by (simp add: sample_env_def)
  have a: "Analytics (sample_world\<lparr>Analytics := Some sample_session\<rparr>) = Some sample_session"
    by simp
  have e: "events sample_session = []" by (simp add: sample_session_def)
  have sid: "sessionId sample_session = ''session_1_xyz''" by (simp add: sample_session_def)
  have evs: "map (event_of_call ''session_1_xyz'') sample_calls
      = map (event_of_call (sessionId sample_session)) sample_calls"
    by (simp add: sid)
  from trackEvents_persisted_log [OF a e ne ok evs refl, of sample_platform]
  show ?thesis
    by (simp add: len n0 n1 rt pr gf sid numeral_2_eq_2 less_Suc_eq)
qed

text \<open>
  X3. Once \<open>Analytics.init\<close> has run, a call of \<open>trackEvent\<close> returns without an
  exception whatever the storage does, and the in-memory sequence ends with the new
  event. When the storage write fails, the failure becomes a console warning and
  \<open>localStorage\<close> is what it was before the call.
\<close>

theorem trackEvent_absorbs_storage_failure:
  assumes "Analytics w = Some a"
  shows "fst (trackEvent p env n d w) = Done
     \<and> Analytics (snd (trackEvent p env n d w)) =
         Some (a\<lparr>events := events a @ [make_event env (sessionId a) n d]\<rparr>)
     \<and> (\<forall>e. setItem_fault env = Some e \<longrightarrow>
           localStorage (snd (trackEvent p env n d w)) = localStorage w
         \<and> console (snd (trackEvent p env n d w)) =
             console w @ [Warn ''Analytics storage failed:'' e,
                          Log ''Analytics Event:'' (make_event env (sessionId a) n d)])"
  using assms
  by (simp add: trackEvent_Done trackEvent_events trackEvent_not_written)

theorem trackEvent_absorbs_storage_failure_witness:
  "fst (trackEvent sample_platform ((sample_env 1001)\<lparr>setItem_fault := Some QuotaExceededError\<rparr>)
         ''link_click'' [(''category'', JStr ''music'')]
         (sample_world\<lparr>Analytics := Some sample_session,
                        localStorage := [trackingKey \<mapsto> ''[]'']\<rparr>)) = Done
   \<and> Analytics (snd (trackEvent sample_platform
         ((sample_env 1001)\<lparr>setItem_fault := Some QuotaExceededError\<rparr>)
         ''link_click'' [(''category'', JStr ''music'')]
         (sample_world\<lparr>Analytics := Some sample_session,
                        localStorage := [trackingKey \<mapsto> ''[]'']\<rparr>)))
     = Some (sample_session\<lparr>events :=
         [make_event ((sample_env 1001)\<lparr>setItem_fault := Some QuotaExceededError\<rparr>)
            ''session_1_xyz'' ''link_click'' [(''category'', JStr ''music'')]]\<rparr>)
   \<and> localStorage (snd (trackEvent sample_platform
         ((sample_env 1001)\<lparr>setItem_fault := Some QuotaExceededError\<rparr>)
         ''link_click'' [(''category'', JStr ''music'')]
         (sample_world\<lparr>Analytics := Some sample_session,
                        localStorage := [trackingKey \<mapsto> ''[]'']\<rparr>))) trackingKey
     = Some ''[]''
   \<and> console (snd (trackEvent sample_platform
         ((sample_env 1001)\<lparr>setItem_fault := Some QuotaExceededError\<rparr>)
         ''link_click'' [(''category'', JStr ''music'')]
         (sample_world\<lparr>Analytics := Some sample_session,
                        localStorage := [trackingKey \<mapsto> ''[]'']\<rparr>)))
     = [Warn ''Analytics storage failed:'' QuotaExceededError,
        Log ''Analytics Event:''
          (make_event ((sample_env 1001)\<lparr>setItem_fault := Some QuotaExceededError\<rparr>)
             ''session_1_xyz'' ''link_click'' [(''category'', JStr ''music'')])]"
  using trackEvent_absorbs_storage_failure
    [of "sample_world\<lparr>Analytics := Some sample_session, localStorage := [trackingKey \<mapsto> ''[]'']\<rparr>"
        sample_session sample_platform
        "(sample_env 1001)\<lparr>setItem_fault := Some QuotaExceededError\<rparr>"
        "''link_click''" "[(''category'', JStr ''music'')]"]
  by (simp add: sample_session_def sample_world_def)

text \<open>
  C6. Before \<open>Analytics.init\<close> has run (the listeners for \<open>error\<close> and
  \<open>unhandledrejection\<close> are registered when the script loads, \<open>init\<close> runs at
  \<open>DOMContentLoaded\<close>), \<open>trackEvent\<close> throws a \<open>TypeError\<close> and changes nothing.
\<close>

theorem trackEvent_before_init:
  assumes "Analytics w = None"
  shows "trackEvent p env n d w = (Threw TypeError, w)"
  using assms by (simp add: trackEvent_def analytics_enabled_def)

theorem trackEvent_before_init_witness:
  "trackEvent sample_platform (sample_env 900) ''global_error'' [(''message'', JStr ''boom'')]
     sample_world = (Threw TypeError, sample_world)"
  using trackEvent_before_init [of sample_world sample_platform "sample_env 900"
      "''global_error''" "[(''message'', JStr ''boom'')]"]
  by (simp add: sample_world_def)

text \<open>
  C10. In the event that \<open>trackEvent\<close> records, \<open>data.timestamp\<close> is the clock and
  \<open>data.url\<close> is the location at the time of the call, whatever the caller passed
  under these two names; every other field of the caller's data is kept.
\<close>

theorem trackEvent_injected_fields_win:
  assumes "Analytics w = Some a"
  shows "\<exists>d'. Analytics (snd (trackEvent p env n d w)) =
           Some (a\<lparr>events := events a @
             [JObj [(''id'', JStr (fresh_id env)), (''sessionId'', JStr (sessionId a)),
                    (''name'', JStr n), (''data'', JObj d')]]\<rparr>)
         \<and> obj_get d' ''timestamp'' = JNum (now env)
         \<and> obj_get d' ''url'' = JStr (href env)
         \<and> (\<forall>k. k \<noteq> ''timestamp'' \<and> k \<noteq> ''url'' \<longrightarrow> obj_get d' k = obj_get d k)"
  using assms
  by (intro exI [of _ "obj_set ''url'' (JStr (href env)) (obj_set ''timestamp'' (JNum (now env)) d)"])
     (simp add: trackEvent_events make_event_def obj_get_obj_set)

theorem trackEvent_injected_fields_win_witness:
  "\<exists>d'. Analytics (snd (trackEvent sample_platform (sample_env 1001) ''page_view''
             [(''url'', JStr ''https://caller.example/''), (''timestamp'', JNum 5),
              (''referrer'', JStr [])]
             (sample_world\<lparr>Analytics := Some sample_session\<rparr>))) =
           Some (sample_session\<lparr>events :=
             [JObj [(''id'', JStr ''linkpro_1_abc''), (''sessionId'', JStr ''session_1_xyz''),
                    (''name'', JStr ''page_view''), (''data'', JObj d')]]\<rparr>)
         \<and> obj_get d' ''timestamp'' = JNum 1001
         \<and> obj_get d' ''url'' = JStr ''https://example.org/''
         \<and> obj_get d' ''referrer'' = JStr []"
proof -
  have a: "Analytics (sample_world\<lparr>Analytics := Some sample_session\<rparr>) = Some sample_session"
    by simp
  from trackEvent_injected_fields_win [OF a, of sample_platform "sample_env 1001" "''page_view''"
      "[(''url'', JStr ''https://caller.example/''), (''timestamp'', JNum 5),
        (''referrer'', JStr [])]"]
  obtain d' where
    "Analytics (snd (trackEvent sample_platform (sample_env 1001) ''page_view''
             [(''url'', JStr ''https://caller.example/''), (''timestamp'', JNum 5),
              (''referrer'', JStr [])]
             (sample_world\<lparr>Analytics := Some sample_session\<rparr>))) =
           Some (sample_session\<lparr>events := events sample_session @
             [JObj [(''id'', JStr (fresh_id (sample_env 1001))),
                    (''sessionId'', JStr (sessionId sample_session)),
                    (''name'', JStr ''page_view''), (''data'', JObj d')]]\<rparr>)"
    and "obj_get d' ''timestamp'' = JNum (now (sample_env 1001))"
    and "obj_get d' ''url'' = JStr (href (sample_env 1001))"
    and "\<forall>k. k \<noteq> ''timestamp'' \<and> k \<noteq> ''url'' \<longrightarrow>
           obj_get d' k = obj_get [(''url'', JStr ''https://caller.example/''),
             (''timestamp'', JNum 5), (''referrer'', JStr [])] k"
    by blast
  then show ?thesis
    by (intro exI [of _ d']) (simp add: sample_session_def sample_env_def obj_get_Cons obj_get_Nil)
qed

section \<open>Properties of the summary\<close>

subsection \<open>Filtering by name\<close>

lemma summarizable_name:
  assumes "summarizable e"
  obtains v where "get_prop e F_name = Returns v"
  using assms by (auto simp: summarizable_def split: outcome.splits)

lemma name_is_named:
  assumes "get_prop e F_name = Returns v"
  shows "name_is n e = Returns (named n e)"
  using assms by (simp add: name_is_def named_def)

lemma filter_o_total:
  assumes "\<forall>x \<in> set xs. P x = Returns (b x)"
  shows "filter_o P xs = Returns (filter b xs)"
  using assms by (induction xs) auto

lemma filter_by_name:
  assumes "\<forall>e \<in> set evs. summarizable e"
  shows "filter_o (name_is n) evs = Returns (filter (named n) evs)"
proof (rule filter_o_total)
  show "\<forall>e \<in> set evs. name_is n e = Returns (named n e)"
    using assms by (auto elim!: summarizable_name simp: name_is_named)
qed

lemma summarizable_click:
  assumes "summarizable e" "named ''link_click'' e"
  obtains k where "category_of e = Returns (JStr k)"
  using assms
  by (auto simp: summarizable_def named_def split: outcome.splits jsval.splits)

lemma summarizable_session:
  assumes "summarizable e" "named ''session_end'' e"
  obtains n where "duration_of e = Returns (JNum n)"
  using assms
  by (auto simp: summarizable_def named_def split: outcome.splits jsval.splits)

subsection \<open>Counting clicks\<close>

text \<open>Every text category is counted or ignored without an exception.\<close>

lemma count_click_returns:
  assumes "category_of c = Returns (JStr k)"
    and "\<forall>k v. m k = Some v \<longrightarrow> (\<exists>n. v = JNum n) \<or> (\<exists>s. v = JStr s)"
  shows "\<exists>m'. count_click p m c = Returns m'
            \<and> (\<forall>k v. m' k = Some v \<longrightarrow> (\<exists>n. v = JNum n) \<or> (\<exists>s. v = JStr s))"
proof (cases "get_prop c F_data")
  case (Returns d)
  then have c: "get_prop d F_category = Returns (JStr k)"
    using assms(1) by (simp add: category_of_def)
  show ?thesis
  proof (cases "m k")
    case None
    then show ?thesis
      using assms(2) by (auto simp: count_click_def Returns c)
  next
    case (Some v)
    then consider n where "v = JNum n" | s where "v = JStr s" using assms(2) by blast
    then show ?thesis
    proof cases
      case 1
      then show ?thesis
        using assms(2) Some by (auto simp: count_click_def Returns c or_zero_plus_one_def)
    next
      case 2
      then show ?thesis
        using assms(2) Some by (auto simp: count_click_def Returns c or_zero_plus_one_def)
    qed
  qed
qed (use assms(1) in \<open>simp_all add: category_of_def\<close>)

lemma fold_count_click_returns:
  assumes "\<forall>c \<in> set cs. \<exists>k. category_of c = Returns (JStr k)"
    and "\<forall>k v. m k = Some v \<longrightarrow> (\<exists>n. v = JNum n) \<or> (\<exists>s. v = JStr s)"
  shows "\<exists>m'. fold_o (count_click p) cs m = Returns m'"
  using assms
proof (induction cs arbitrary: m)
  case Nil
  then show ?case by simp
next
  case (Cons c cs)
  then obtain k where "category_of c = Returns (JStr k)" by auto
  from count_click_returns [OF this Cons.prems(2), of p]
  obtain m1 where m1: "count_click p m c = Returns m1"
    "\<forall>k v. m1 k = Some v \<longrightarrow> (\<exists>n. v = JNum n) \<or> (\<exists>s. v = JStr s)"
    by blast
  have "\<forall>c \<in> set cs. \<exists>k. category_of c = Returns (JStr k)" using Cons.prems(1) by simp
  from Cons.IH [OF this m1(2)] show ?case by (simp add: m1(1))
qed

text \<open>A category that \<open>Object.prototype\<close> does not define is counted.\<close>

lemma count_click_plain:
  assumes "category_of c = Returns (JStr k)" "k \<notin> set object_prototype_names"
  shows "count_click p (counts_object cnt) c = Returns (counts_object (cnt(k := Suc (cnt k))))"
proof (cases "get_prop c F_data")
  case (Returns d)
  then have c: "get_prop d F_category = Returns (JStr k)"
    using assms(1) by (simp add: category_of_def)
  have k: "k \<noteq> ''__proto__''" "k \<notin> set object_prototype_methods"
    using assms(2) by (simp_all add: object_prototype_names_def)
  show ?thesis
    by (auto simp: count_click_def Returns c k counts_object_def or_zero_plus_one_def fun_eq_iff)
qed (use assms(1) in \<open>simp_all add: category_of_def\<close>)

lemma fold_count_click_plain:
  assumes "\<forall>c \<in> set cs. \<exists>k. category_of c = Returns (JStr k) \<and> k \<notin> set object_prototype_names"
  shows "fold_o (count_click p) cs (counts_object cnt) =
     Returns (counts_object
       (\<lambda>k. cnt k + length (filter (\<lambda>c. category_of c = Returns (JStr k)) cs)))"
  using assms
proof (induction cs arbitrary: cnt)
  case Nil
  then show ?case by simp
next
  case (Cons c cs)
  then obtain k0 where k0: "category_of c = Returns (JStr k0)" "k0 \<notin> set object_prototype_names"
    by auto
  have step: "count_click p (counts_object cnt) c = Returns (counts_object (cnt(k0 := Suc (cnt k0))))"
    using k0 by (rule count_click_plain)
  have rest: "\<forall>c \<in> set cs. \<exists>k. category_of c = Returns (JStr k) \<and> k \<notin> set object_prototype_names"
    using Cons.prems by simp
  have same: "(\<lambda>k. (cnt(k0 := Suc (cnt k0))) k
                  + length (filter (\<lambda>c. category_of c = Returns (JStr k)) cs))
      = (\<lambda>k. cnt k + length (filter (\<lambda>c. category_of c = Returns (JStr k)) (c # cs)))"
    by (auto simp: fun_eq_iff k0)
  show ?case
    unfolding fold_o.simps step obind.simps Cons.IH [OF rest] same ..
qed

subsection \<open>The average\<close>

lemma add_duration_number:
  assumes "duration_of e = Returns (JNum n)"
  shows "add_duration acc e = Returns (dadd acc (fl (of_int n)))"
  using assms by (cases "get_prop e F_data") (auto simp: add_duration_def duration_of_def)

lemma fold_add_duration_returns:
  assumes "\<forall>e \<in> set ss. \<exists>n. duration_of e = Returns (JNum n)"
  shows "\<exists>t. fold_o add_duration ss acc = Returns t"
  using assms
proof (induction ss arbitrary: acc)
  case Nil
  then show ?case by simp
next
  case (Cons e ss)
  then obtain n where n: "duration_of e = Returns (JNum n)" by auto
  have "\<forall>e \<in> set ss. \<exists>n. duration_of e = Returns (JNum n)" using Cons.prems by simp
  from Cons.IH [OF this] show ?case
    by (simp add: add_duration_number [OF n])
qed

lemma calculateAverageSessionTime_returns:
  assumes "\<forall>e \<in> set evs. summarizable e"
  shows "\<exists>avg. calculateAverageSessionTime evs = Returns avg"
proof -
  let ?ss = "filter (named ''session_end'') evs"
  have f: "filter_o (name_is ''session_end'') evs = Returns ?ss"
    using assms by (rule filter_by_name)
  have "\<forall>e \<in> set ?ss. \<exists>n. duration_of e = Returns (JNum n)"
    using assms by (auto elim: summarizable_session)
  from fold_add_duration_returns [OF this, of "Num 0"]
  obtain t where "fold_o add_duration ?ss (Num 0) = Returns t" by blast
  then show ?thesis by (simp add: calculateAverageSessionTime_def f)
qed

lemma average_no_sessions:
  assumes "\<forall>e \<in> set evs. summarizable e" "session_durations evs = []"
  shows "calculateAverageSessionTime evs = Returns (Num 0)"
proof -
  have f: "filter_o (name_is ''session_end'') evs = Returns (filter (named ''session_end'') evs)"
    using assms(1) by (rule filter_by_name)
  show ?thesis
    using assms(2) by (simp add: calculateAverageSessionTime_def f session_durations_def)
qed




subsection \<open>The summary of a log\<close>

lemma summarize_returns:
  assumes "\<forall>e \<in> set evs. summarizable e"
  shows "\<exists>cats avg. fold_o (count_click p) (filter (named ''link_click'') evs) Map.empty = Returns cats
     \<and> calculateAverageSessionTime evs = Returns avg
     \<and> summarize p (JArr evs) =
         Returns \<lparr>totalEvents = length evs,
                  totalClicks = length (filter (named ''link_click'') evs),
                  categories = cats, averageSessionTime = avg\<rparr>"
proof -
  let ?cs = "filter (named ''link_click'') evs"
  have f: "filter_o (name_is ''link_click'') evs = Returns ?cs"
    using assms by (rule filter_by_name)
  have "\<forall>c \<in> set ?cs. \<exists>k. category_of c = Returns (JStr k)"
    using assms by (auto elim: summarizable_click)
  from fold_count_click_returns [OF this, of Map.empty p]
  obtain cats where cats: "fold_o (count_click p) ?cs Map.empty = Returns cats"
    by auto
  obtain avg where avg: "calculateAverageSessionTime evs = Returns avg"
    using calculateAverageSessionTime_returns [OF assms] by blast
  show ?thesis
    by (simp add: summarize_def f cats avg)
qed

lemma plain_categories_clicks:
  assumes "\<forall>e \<in> set evs. summarizable e" "plain_categories evs"
  shows "\<forall>c \<in> set (filter (named ''link_click'') evs).
           \<exists>k. category_of c = Returns (JStr k) \<and> k \<notin> set object_prototype_names"
proof
  fix c assume c: "c \<in> set (filter (named ''link_click'') evs)"
  then have "summarizable c" "named ''link_click'' c" using assms(1) by auto
  then obtain k where k: "category_of c = Returns (JStr k)" by (rule summarizable_click)
  have "case category_of c of
          Returns (JStr k) \<Rightarrow> named ''link_click'' c \<longrightarrow> k \<notin> set object_prototype_names
        | _ \<Rightarrow> True"
    using assms(2) c by (simp add: plain_categories_def list_all_iff)
  then show "\<exists>k. category_of c = Returns (JStr k) \<and> k \<notin> set object_prototype_names"
    using k \<open>named ''link_click'' c\<close> by simp
qed

lemma getSummary_summarize:
  "fst (getSummary p env w) = summarize p (fst (loadFromStorage p env w))"
  by (simp add: getSummary_def split_beta)

lemma loadFromStorage_empty:
  assumes "localStorage w trackingKey = None \<or> localStorage w trackingKey = Some []
     \<or> (\<exists>s. localStorage w trackingKey = Some s \<and> JSON_parse p s = Some (JArr []))"
  shows "fst (loadFromStorage p env w) = JArr []"
  using assms
  by (cases "getItem_fault env") (auto simp: loadFromStorage_def getItem_def)

text \<open>
  C2. When nothing is stored under the tracking key, or the stored text is empty or
  parses to the empty array, \<open>getSummary\<close> returns a summary (no exception, and no
  division is reached) with zero events, zero clicks, no category and an average
  session time of 0.
\<close>

theorem getSummary_empty_log:
  assumes "localStorage w trackingKey = None \<or> localStorage w trackingKey = Some []
     \<or> (\<exists>s. localStorage w trackingKey = Some s \<and> JSON_parse p s = Some (JArr []))"
  shows "fst (getSummary p env w) =
     Returns \<lparr>totalEvents = 0, totalClicks = 0, categories = Map.empty, averageSessionTime = Num 0\<rparr>"
  using loadFromStorage_empty [OF assms, of env]
  by (simp add: getSummary_summarize summarize_def calculateAverageSessionTime_def)

theorem getSummary_empty_log_witness:
  "fst (getSummary sample_platform (sample_env 5000) sample_world) =
     Returns \<lparr>totalEvents = 0, totalClicks = 0, categories = Map.empty, averageSessionTime = Num 0\<rparr>
   \<and> fst (getSummary sample_platform (sample_env 5000)
        (sample_world\<lparr>localStorage := [trackingKey \<mapsto> ''[]'']\<rparr>)) =
     Returns \<lparr>totalEvents = 0, totalClicks = 0, categories = Map.empty, averageSessionTime = Num 0\<rparr>"
  using getSummary_empty_log [of sample_world sample_platform "sample_env 5000"]
    getSummary_empty_log [of "sample_world\<lparr>localStorage := [trackingKey \<mapsto> ''[]'']\<rparr>"
      sample_platform "sample_env 5000"]
  by (simp add: sample_world_def sample_platform_def)

text \<open>
  C3 says that \<open>getSummary\<close> maps every category of a \<open>link_click\<close> entry to the number
  of such entries, for every log. The code departs from it: the object \<open>categories\<close>
  is created as \<open>{}\<close> and inherits from \<open>Object.prototype\<close>. In a log with two clicks
  of category \<open>constructor\<close>, one of category \<open>social\<close> and one of category
  \<open>__proto__\<close>, all four are counted as clicks, but the mapping holds no count for
  \<open>constructor\<close> (it holds the text of the inherited function followed by \<open>11\<close>) and
  no entry for \<open>__proto__\<close>.
\<close>

theorem summarize_inherited_categories:
  "summarize p (JArr sample_inherited) =
     Returns \<lparr>totalEvents = 4, totalClicks = 4,
              categories = [''constructor'' \<mapsto> JStr (Function_toString p ''constructor'' @ ''11''),
                            ''social'' \<mapsto> JNum 1],
              averageSessionTime = Num 0\<rparr>"
  by (simp add: summarize_def sample_inherited_def name_is_def obj_get_Cons obj_get_Nil
      count_click_def or_zero_plus_one_def object_prototype_methods_def
      calculateAverageSessionTime_def fun_upd_twist)

text \<open>
  X1 (what holds of C3). When the loaded log is an array of entries as the module
  records them, and no \<open>link_click\<close> has a category that \<open>Object.prototype\<close>
  defines, \<open>getSummary\<close> returns a summary that counts every entry, counts the
  \<open>link_click\<close> entries, and maps every category to the number of \<open>link_click\<close>
  entries that carry it (and no other key). For a log with three clicks of category
  \<open>social\<close> and two of category \<open>music\<close> the mapping is exactly
  \<open>social: 3, music: 2\<close>.
\<close>

theorem getSummary_groups_plain_categories:
  assumes "fst (loadFromStorage p env w) = JArr evs" and "\<forall>e \<in> set evs. summarizable e"
    and "plain_categories evs"
  shows "\<exists>s. fst (getSummary p env w) = Returns s
     \<and> totalEvents s = length evs
     \<and> totalClicks s = length (filter (named ''link_click'') evs)
     \<and> categories s = counts_object (\<lambda>k. clicks_in k evs)"
proof -
  have e: "Map.empty = counts_object (\<lambda>k. 0)" by (simp add: counts_object_def)
  have c: "fold_o (count_click p) (filter (named ''link_click'') evs) Map.empty =
      Returns (counts_object (\<lambda>k. clicks_in k evs))"
    unfolding e fold_count_click_plain [OF plain_categories_clicks [OF assms(2,3)]]
    by (simp add: clicks_in_def conj_commute)
  from summarize_returns [OF assms(2), of p] c show ?thesis
    by (auto simp: getSummary_summarize assms(1))
qed

lemma sample_clicks_summarizable: "\<forall>e \<in> set sample_clicks. summarizable e"
  by (simp add: sample_clicks_def summarizable_def category_of_def duration_of_def
      obj_get_Cons obj_get_Nil)

lemma sample_clicks_plain: "plain_categories sample_clicks"
  by (simp add: sample_clicks_def plain_categories_def category_of_def named_def
      obj_get_Cons obj_get_Nil object_prototype_names_def object_prototype_methods_def)

lemma sample_clicks_loaded:
  "fst (loadFromStorage sample_platform (sample_env 5000)
     (sample_world\<lparr>localStorage := [trackingKey \<mapsto> ''[clicks]'']\<rparr>)) = JArr sample_clicks"
  by (simp add: loadFromStorage_def getItem_def sample_env_def sample_platform_def)

lemma sample_clicks_in:
  "clicks_in k sample_clicks = (if k = ''social'' then 3 else if k = ''music'' then 2 else 0)"
  by (simp add: clicks_in_def sample_clicks_def named_def category_of_def obj_get_Cons obj_get_Nil)

theorem getSummary_groups_plain_categories_witness:
  "\<exists>s. fst (getSummary sample_platform (sample_env 5000)
            (sample_world\<lparr>localStorage := [trackingKey \<mapsto> ''[clicks]'']\<rparr>)) = Returns s
     \<and> totalEvents s = 8 \<and> totalClicks s = 5
     \<and> categories s = [''social'' \<mapsto> JNum 3, ''music'' \<mapsto> JNum 2]"
proof -
  from getSummary_groups_plain_categories
    [OF sample_clicks_loaded sample_clicks_summarizable sample_clicks_plain]
  obtain s where s: "fst (getSummary sample_platform (sample_env 5000)
            (sample_world\<lparr>localStorage := [trackingKey \<mapsto> ''[clicks]'']\<rparr>)) = Returns s"
    "totalEvents s = length sample_clicks"
    "totalClicks s = length (filter (named ''link_click'') sample_clicks)"
    "categories s = counts_object (\<lambda>k. clicks_in k sample_clicks)"
    by blast
  have "categories s = [''social'' \<mapsto> JNum 3, ''music'' \<mapsto> JNum 2]"
    using s(4) by (auto simp: fun_eq_iff sample_clicks_in counts_object_def)
  moreover have "totalEvents s = 8" using s(2) by (simp add: sample_clicks_def)
  moreover have "totalClicks s = 5"
    using s(3) by (simp add: sample_clicks_def named_def obj_get_Cons)
  ultimately show ?thesis using s(1) by blast
qed







text \<open>
  C7. \<open>loadFromStorage\<close> always returns a value: the parsed value when the stored text
  is there and parses, and the empty array when the key is absent, when the text does
  not parse, and when \<open>localStorage\<close> refuses the read.
\<close>

theorem loadFromStorage_never_throws:
  "(getItem_fault env = None \<and> localStorage w trackingKey = Some s \<and> s \<noteq> []
      \<and> JSON_parse p s = Some v \<longrightarrow> loadFromStorage p env w = (v, w))
   \<and> (localStorage w trackingKey = None \<longrightarrow> fst (loadFromStorage p env w) = JArr [])
   \<and> (localStorage w trackingKey = Some s \<and> JSON_parse p s = None
        \<longrightarrow> fst (loadFromStorage p env w) = JArr [])
   \<and> (getItem_fault env \<noteq> None \<longrightarrow> fst (loadFromStorage p env w) = JArr [])"
  by (cases "getItem_fault env") (auto simp: loadFromStorage_def getItem_def)

theorem loadFromStorage_never_throws_witness:
  "loadFromStorage sample_platform (sample_env 5000)
     (sample_world\<lparr>localStorage := [trackingKey \<mapsto> ''[clicks]'']\<rparr>)
     = (JArr sample_clicks, sample_world\<lparr>localStorage := [trackingKey \<mapsto> ''[clicks]'']\<rparr>)
   \<and> fst (loadFromStorage sample_platform (sample_env 5000) sample_world) = JArr []
   \<and> fst (loadFromStorage sample_platform (sample_env 5000)
        (sample_world\<lparr>localStorage := [trackingKey \<mapsto> ''{oops'']\<rparr>)) = JArr []
   \<and> fst (loadFromStorage sample_platform ((sample_env 5000)\<lparr>getItem_fault := Some SecurityError\<rparr>)
        (sample_world\<lparr>localStorage := [trackingKey \<mapsto> ''[clicks]'']\<rparr>)) = JArr []"
  using loadFromStorage_never_throws [of "sample_env 5000"
      "sample_world\<lparr>localStorage := [trackingKey \<mapsto> ''[clicks]'']\<rparr>" "''[clicks]''"
      sample_platform "JArr sample_clicks"]
    loadFromStorage_never_throws [of "sample_env 5000" sample_world "''[clicks]''" sample_platform]
    loadFromStorage_never_throws [of "sample_env 5000"
      "sample_world\<lparr>localStorage := [trackingKey \<mapsto> ''{oops'']\<rparr>" "''{oops''" sample_platform]
    loadFromStorage_never_throws [of "(sample_env 5000)\<lparr>getItem_fault := Some SecurityError\<rparr>"
      "sample_world\<lparr>localStorage := [trackingKey \<mapsto> ''[clicks]'']\<rparr>" "''[clicks]''"
      sample_platform]
  by (simp add: sample_world_def sample_platform_def sample_env_def)

section \<open>Properties of the counter animation\<close>

text \<open>The number of steps \<open>duration / 16\<close>, and the increment that it gives.\<close>

lemma duration_steps:
  assumes "0 \<le> d" and "d \<le> 16 * 2 ^ j" and "j \<le> (52::nat)"
  shows "\<exists>N. ddiv (Num d) (Num 16) = Num N \<and> 0 \<le> N \<and> N \<le> 2 ^ j"
proof -
  define x where "x = d / 16"
  have x0: "0 \<le> x" using assms(1) by (simp add: x_def)
  have xj: "x \<le> 2 ^ j" using assms(2) by (simp add: x_def)
  have j53: "(2::int) ^ j \<le> 2 ^ 53" using assms(3) by (intro power_increasing) simp_all
  then have "(of_int (2 ^ j) :: rat) \<le> of_int (2 ^ 53)" by (simp only: of_int_le_iff)
  then have "x \<le> 2 ^ 53" using xj by simp
  note f = fl_small [OF x0 this]
  have "rnd x \<le> rnd (of_int (2 ^ j))" using x0 xj by (intro rnd_mono) simp_all
  also have "\<dots> = of_int (2 ^ j)" using j53 by (intro rnd_of_int) simp_all
  finally have "rnd x \<le> 2 ^ j" by simp
  then show ?thesis using f by (simp add: x_def)
qed

lemma increment_bounds:
  assumes "1 \<le> T" and "0 \<le> N" and "N \<le> 2 ^ j" and "j \<le> (52::nat)"
  defines "g \<equiv> exponent_of (of_int T) - int j"
  shows "(ddiv (Num (of_int T)) (Num N) = PosInf
            \<or> (\<exists>i. ddiv (Num (of_int T)) (Num N) = Num i \<and> 2 powi g \<le> i))
     \<and> (of_int T :: rat) < of_nat (2 ^ (j + 1)) * 2 powi g \<and> - 1074 \<le> g"
proof -
  have T: "(1::rat) \<le> of_int T" using assms(1) by simp
  then have T0: "(of_int T :: rat) \<noteq> 0" by simp
  note b = exponent_bounds [OF T0]
  have e0: "0 \<le> exponent_of (of_int T)"
  proof -
    have "(2::rat) powi 0 \<le> \<bar>of_int T\<bar>" using T by simp
    also have "\<dots> < 2 powi (exponent_of (of_int T) + 1)" by (rule b(2))
    finally have "0 < exponent_of (of_int T :: rat) + 1"
      by (metis power_int_increasing not_less one_le_numeral)
    then show ?thesis by simp
  qed
  then have g: "- 1074 \<le> g" using assms(4) by (simp add: g_def)
  have "(2::rat) powi (g + int j) \<le> of_int T" using b(1) T by (simp add: g_def)
  then have lo: "(2::rat) powi g * 2 ^ j \<le> of_int T"
    using power_int_add [of "2::rat" g "int j"] by simp
  have ge: "exponent_of (of_int T) + 1 = g + int (j + 1)" by (simp add: g_def)
  have "(of_int T :: rat) < 2 powi (g + int (j + 1))" using b(2) T unfolding ge by simp
  also have "\<dots> = 2 powi g * 2 powi int (j + 1)" by (rule power_int_add) simp
  also have "\<dots> = 2 powi g * 2 ^ (j + 1)" by (simp only: power_int_of_nat)
  also have "\<dots> = of_nat (2 ^ (j + 1)) * 2 powi g" by (simp add: mult.commute)
  finally have hi: "(of_int T :: rat) < of_nat (2 ^ (j + 1)) * 2 powi g" .
  have inc: "ddiv (Num (of_int T)) (Num N) = PosInf
            \<or> (\<exists>i. ddiv (Num (of_int T)) (Num N) = Num i \<and> 2 powi g \<le> i)"
  proof (cases "N = 0")
    case True
    then show ?thesis using T by simp
  next
    case False
    then have N: "0 < N" using assms(2) by simp
    define x :: rat where "x = of_int T / N"
    have xpos: "0 < x" using T N by (simp add: x_def)
    have "(2::rat) powi g * N \<le> 2 powi g * 2 ^ j"
      using assms(3) by (intro mult_left_mono) simp_all
    then have "(2::rat) powi g * N \<le> of_int T" using lo by linarith
    then have gx: "2 powi g \<le> x" using N by (simp add: x_def field_simps)
    have "rnd (of_int 1 * 2 powi g) = of_int 1 * 2 powi g"
      using g by (intro rnd_fixpoint) simp_all
    then have "rnd (2 powi g) = 2 powi g" by simp
    moreover have "rnd (2 powi g) \<le> rnd x" using gx by (intro rnd_mono) simp_all
    ultimately have i_lo: "2 powi g \<le> rnd x" by simp
    have "0 \<le> rnd x" using xpos by (intro rnd_nonneg) simp
    moreover have "(0::rat) < 2 powi 1024" by simp
    ultimately have "\<not> rnd x \<le> - (2 powi 1024)" by linarith
    then have "fl x = PosInf \<or> fl x = Num (rnd x)" by (simp add: fl_def Let_def)
    moreover have "ddiv (Num (of_int T)) (Num N) = fl x" using False by (simp add: x_def)
    ultimately show ?thesis using i_lo by auto
  qed
  from inc hi g show ?thesis by blast
qed

lemma ticks_Suc: "ticks p (Suc k) c = tick p (ticks p k c)"
  by (simp add: ticks_def)

lemma tick_stopped: "\<not> timer c \<Longrightarrow> tick p c = c"
  by (simp add: tick_def)

text \<open>
  While the timer runs, every run adds at least \<open>2 powi g\<close>, and the sum stays below the
  target; once the timer is cleared, the counter stays at the target.
\<close>

lemma ticks_invariant:
  assumes c0: "c0 = \<lparr>target = Num (of_int T), increment = inc, current = Num 0,
                      timer = True, textContent = t0\<rparr>"
    and T: "1 \<le> T"
    and inc: "inc = PosInf \<or> (\<exists>i. inc = Num i \<and> 2 powi g \<le> i)"
    and g: "- 1074 \<le> g"
    and hi: "(of_int T :: rat) < of_nat K * 2 powi g" and K: "K \<le> 2 ^ 53"
  shows "target (ticks p k c0) = Num (of_int T) \<and> increment (ticks p k c0) = inc
     \<and> (\<exists>r. current (ticks p k c0) = Num r \<and> 0 \<le> r \<and> r \<le> of_int T
            \<and> (timer (ticks p k c0) \<longrightarrow> of_nat k * 2 powi g \<le> r \<and> r < of_int T)
            \<and> (\<not> timer (ticks p k c0) \<longrightarrow> r = of_int T))
     \<and> (0 < k \<longrightarrow> textContent (ticks p k c0)
                      = toLocaleString p (Math_floor (current (ticks p k c0))))"
proof (induction k)
  case 0
  then show ?case using T by (simp add: ticks_def c0)
next
  case (Suc k)
  define c where "c = ticks p k c0"
  from Suc obtain r where inv:
    "target c = Num (of_int T)" "increment c = inc" "current c = Num r" "0 \<le> r"
    "r \<le> of_int T" "timer c \<Longrightarrow> of_nat k * 2 powi g \<le> r \<and> r < of_int T"
    "\<not> timer c \<Longrightarrow> r = of_int T"
    "0 < k \<Longrightarrow> textContent c = toLocaleString p (Math_floor (current c))"
    unfolding c_def by blast
  have s: "ticks p (Suc k) c0 = tick p c" by (simp add: ticks_Suc c_def)
  show ?case
  proof (cases "timer c")
    case False
    then have same: "tick p c = c" by (rule tick_stopped)
    have "0 < k"
    proof (rule ccontr)
      assume "\<not> 0 < k"
      then have "c = c0" by (simp add: c_def ticks_def)
      then show False using False by (simp add: c0)
    qed
    then show ?thesis using inv False by (simp add: s same)
  next
    case True
    note run = inv(6) [OF True]
    have reach: ?thesis if reached: "dge (dadd (Num r) inc) (Num (of_int T))"
    proof -
      have "tick p c = c\<lparr>current := Num (of_int T), timer := False,
                 textContent := toLocaleString p (Math_floor (Num (of_int T)))\<rparr>"
        using True reached by (simp add: tick_def Let_def inv)
      then show ?thesis using inv(1,2) T by (simp add: s)
    qed
    from inc show ?thesis
    proof
      assume "inc = PosInf"
      then show ?thesis by (intro reach) simp
    next
      assume "\<exists>i. inc = Num i \<and> 2 powi g \<le> i"
      then obtain i where i: "inc = Num i" "2 powi g \<le> i" by blast
      have ipos: "0 < i"
      proof -
        have "0 < (2::rat) powi g" by simp
        then show ?thesis using i(2) by linarith
      qed
      have kK: "k < K"
      proof (rule ccontr)
        assume "\<not> k < K"
        then have "(of_nat K :: rat) \<le> of_nat k" by simp
        then have "of_nat K * 2 powi g \<le> of_nat k * (2::rat) powi g"
          by (intro mult_right_mono) simp_all
        then show False using run hi by linarith
      qed
      define s' where "s' = rnd (r + i)"
      have "of_nat (Suc k) * 2 powi g \<le> r + i"
        using run i(2) by (simp add: algebra_simps)
      moreover have "rnd (of_int (int (Suc k)) * 2 powi g) = of_int (int (Suc k)) * 2 powi g"
      proof (rule rnd_fixpoint)
        show "0 < int (Suc k)" by simp
        have "Suc k \<le> K" using kK by simp
        then have "Suc k \<le> 2 ^ 53" using K by (rule order_trans)
        then have "int (Suc k) \<le> int (2 ^ 53)" by (simp only: of_nat_le_iff)
        then show "int (Suc k) \<le> 2 ^ 53" by simp
        show "- 1074 \<le> g" by (rule g)
      qed
      moreover have "rnd (of_nat (Suc k) * 2 powi g) \<le> rnd (r + i)"
        using \<open>of_nat (Suc k) * 2 powi g \<le> r + i\<close> by (intro rnd_mono) simp_all
      ultimately have lo: "of_nat (Suc k) * 2 powi g \<le> s'" by (simp add: s'_def)
      have s0: "0 \<le> s'" unfolding s'_def using inv(4) ipos by (intro rnd_nonneg) simp
      have cur: "dadd (Num r) inc = fl (r + i)" by (simp add: i(1))
      have flc: "fl (r + i) = PosInf \<or> fl (r + i) = Num s'"
        using s0 by (auto simp: fl_def Let_def s'_def)
      show ?thesis
      proof (cases "dge (fl (r + i)) (Num (of_int T))")
        case reached: True
        then show ?thesis by (intro reach) (simp add: cur)
      next
        case notyet: False
        then have f: "fl (r + i) = Num s'" and lt: "s' < of_int T"
          using flc by auto
        have "tick p c = c\<lparr>current := Num s', timer := True,
                   textContent := toLocaleString p (Math_floor (Num s'))\<rparr>"
          using True notyet by (simp add: tick_def Let_def cur [unfolded i(1)] inv i(1) f)
        then show ?thesis using inv(1,2) lo lt s0 by (simp add: s)
      qed
    qed
  qed
qed

text \<open>
  C8. For every integer target from 1 and every duration from \<open>0\<close> to \<open>16 * 2 ^ j\<close>
  milliseconds, where \<open>j \<le> 52\<close> (for the default duration of 2000, \<open>j = 7\<close>), the timer
  is cleared after at most \<open>2 ^ (j + 1)\<close> runs of the callback; from then on the counter
  holds the target and the element shows the target. After every run the element
  shows the floor of the current value, and that floor is an integer that does not
  exceed the target.
\<close>

theorem animateNumber_reaches_target:
  assumes "1 \<le> T" and "0 \<le> d" and "d \<le> 16 * 2 ^ j" and "j \<le> (52::nat)"
    and "c0 = animateNumber t0 (Num (of_int T)) (Num d)"
  shows "(\<forall>k \<ge> 2 ^ (j + 1). \<not> timer (ticks p k c0)
                 \<and> current (ticks p k c0) = Num (of_int T)
                 \<and> textContent (ticks p k c0) = toLocaleString p (Num (of_int T)))
     \<and> (\<forall>k \<ge> 1. textContent (ticks p k c0) = toLocaleString p (Math_floor (current (ticks p k c0)))
            \<and> (\<exists>v. Math_floor (current (ticks p k c0)) = Num (of_int v) \<and> v \<le> T))"
proof -
  define g where "g = exponent_of (of_int T) - int j"
  define K :: nat where "K = 2 ^ (j + 1)"
  from duration_steps [OF assms(2,3,4)] obtain N where
    N: "ddiv (Num d) (Num 16) = Num N" "0 \<le> N" "N \<le> 2 ^ j"
    by blast
  define inc where "inc = ddiv (Num (of_int T)) (Num N)"
  from increment_bounds [OF assms(1) N(2,3) assms(4)] have
    i: "inc = PosInf \<or> (\<exists>i. inc = Num i \<and> 2 powi g \<le> i)"
       "(of_int T :: rat) < of_nat K * 2 powi g" "- 1074 \<le> g"
    unfolding g_def inc_def K_def by blast+
  have K: "K \<le> 2 ^ 53" unfolding K_def using assms(4) by (intro power_increasing) simp_all
  have c0: "c0 = \<lparr>target = Num (of_int T), increment = inc, current = Num 0,
                  timer = True, textContent = t0\<rparr>"
    by (simp only: assms(5) animateNumber_def N(1) inc_def)
  note inv = ticks_invariant [OF c0 assms(1) i(1) i(3) i(2) K, of p]
  have cleared: "\<not> timer (ticks p k c0) \<and> current (ticks p k c0) = Num (of_int T)
      \<and> textContent (ticks p k c0) = toLocaleString p (Num (of_int T))" if "K \<le> k" for k
  proof -
    from inv [of k] obtain r where r: "current (ticks p k c0) = Num r"
      "timer (ticks p k c0) \<Longrightarrow> of_nat k * 2 powi g \<le> r \<and> r < of_int T"
      "\<not> timer (ticks p k c0) \<Longrightarrow> r = of_int T"
      and t: "0 < k \<Longrightarrow> textContent (ticks p k c0)
                = toLocaleString p (Math_floor (current (ticks p k c0)))"
      by blast
    have nt: "\<not> timer (ticks p k c0)"
    proof
      assume running: "timer (ticks p k c0)"
      have "(of_nat K :: rat) \<le> of_nat k" using that by simp
      then have "of_nat K * 2 powi g \<le> of_nat k * (2::rat) powi g"
        by (intro mult_right_mono) simp_all
      then show False using r(2) [OF running] i(2) by linarith
    qed
    then have "r = of_int T" by (rule r(3))
    moreover have "0 < K" by (simp add: K_def)
    then have "0 < k" using that by linarith
    ultimately show ?thesis using nt r(1) t by simp
  qed
  have shown: "textContent (ticks p k c0) = toLocaleString p (Math_floor (current (ticks p k c0)))
      \<and> (\<exists>v. Math_floor (current (ticks p k c0)) = Num (of_int v) \<and> v \<le> T)" if "1 \<le> k" for k
  proof -
    from inv [of k] obtain r where r: "current (ticks p k c0) = Num r" "r \<le> of_int T"
      and t: "0 < k \<Longrightarrow> textContent (ticks p k c0)
                = toLocaleString p (Math_floor (current (ticks p k c0)))"
      by blast
    have "\<lfloor>r\<rfloor> \<le> T" using r(2) by (simp add: floor_le_iff)
    then show ?thesis using r(1) t that by auto
  qed
  from cleared shown show ?thesis unfolding K_def by blast
qed

theorem animateNumber_reaches_target_witness:
  "\<not> timer (ticks sample_platform 256 sample_counter)
   \<and> current (ticks sample_platform 256 sample_counter) = Num 1000
   \<and> textContent (ticks sample_platform 256 sample_counter) = ''1,000''
   \<and> textContent (ticks sample_platform 300 sample_counter) = ''1,000''
   \<and> (\<exists>v. Math_floor (current (ticks sample_platform 77 sample_counter)) = Num (of_int v)
          \<and> v \<le> 1000)"
proof -
  have T: "(1::int) \<le> 1000" by simp
  have d: "(0::rat) \<le> 2000" "(2000::rat) \<le> 16 * 2 ^ 7" "(7::nat) \<le> 52" by simp_all
  have c: "sample_counter = animateNumber ''0'' (Num (of_int 1000)) (Num 2000)"
    by (simp add: sample_counter_def default_duration_def)
  note t = animateNumber_reaches_target [OF T d c, of sample_platform]
  have fmt: "toLocaleString sample_platform (Num 1000) = ''1,000''"
    by (simp add: sample_platform_def)
  from t have a: "\<not> timer (ticks sample_platform k sample_counter)
      \<and> current (ticks sample_platform k sample_counter) = Num 1000
      \<and> textContent (ticks sample_platform k sample_counter) = ''1,000''" if "256 \<le> k" for k
    using that by (simp add: fmt)
  from t have b: "\<exists>v. Math_floor (current (ticks sample_platform k sample_counter)) = Num (of_int v)
      \<and> v \<le> 1000" if "1 \<le> k" for k
    using that by simp
  show ?thesis using a [of 256] a [of 300] b [of 77] by simp
qed

text \<open>
  X6. With a duration of \<open>0\<close> and a positive target the increment is infinite: the
  first run of the callback clears the timer and shows the target.
\<close>

theorem animateNumber_zero_duration:
  assumes "0 < T"
  shows "tick p (animateNumber t0 (Num T) (Num 0)) =
     \<lparr>target = Num T, increment = PosInf, current = Num T, timer = False,
      textContent = toLocaleString p (Math_floor (Num T))\<rparr>"
proof -
  have z: "fl 0 = Num 0" by (simp add: fl_def Let_def)
  show ?thesis using assms by (simp add: animateNumber_def tick_def Let_def z)
qed

theorem animateNumber_zero_duration_witness:
  "timer (animateNumber ''0'' (Num 1000) (Num 0))
   \<and> \<not> timer (tick sample_platform (animateNumber ''0'' (Num 1000) (Num 0)))
   \<and> textContent (tick sample_platform (animateNumber ''0'' (Num 1000) (Num 0))) = ''1,000''"
  using animateNumber_zero_duration [of 1000 sample_platform "''0''"]
  by (simp add: sample_platform_def animateNumber_def)

section \<open>Properties of the theme\<close>

lemma applyTheme_frame:
  "currentTheme (applyTheme env t w) = currentTheme w"
  "Analytics (applyTheme env t w) = Analytics w"
  "localStorage (applyTheme env t w) = localStorage w"
  "listeners (applyTheme env t w) = listeners w"
  by (cases "themeIcon w"; simp add: applyTheme_def updateThemeIcon_def Let_def)+

lemma applyTheme_dataTheme:
  "dataTheme (applyTheme env t w) =
     Some (if t = ''system'' then (if prefers_dark env then ''dark'' else ''light'') else t)"
  by (cases "themeIcon w"; simp add: applyTheme_def updateThemeIcon_def Let_def)

lemma themeToggle_click_currentTheme:
  "currentTheme (snd (themeToggle_click p env w)) =
     (if currentTheme w = ''light'' then ''dark'' else ''light'')"
  by (cases "setItem_fault env")
     (simp_all add: themeToggle_click_def storeTheme_def setItem_def Let_def
        trackEvent_frame applyTheme_frame)

lemma themeToggle_click_ok:
  assumes "Analytics w = Some a" "setItem_fault env = None"
    "theme = (if currentTheme w = ''light'' then ''dark'' else ''light'')"
  shows "fst (themeToggle_click p env w) = Done"
    and "localStorage (snd (themeToggle_click p env w)) ''linkpro_theme'' = Some theme"
    and "dataTheme (snd (themeToggle_click p env w)) = Some theme"
    and "Analytics (snd (themeToggle_click p env w)) =
           Some (a\<lparr>events := events a @
             [make_event env (sessionId a) ''theme_change'' [(''theme'', JStr theme)]]\<rparr>)"
proof -
  let ?w2 = "w\<lparr>currentTheme := theme, localStorage := (localStorage w)(''linkpro_theme'' \<mapsto> theme)\<rparr>"
  have st: "themeToggle_click p env w =
      trackEvent p env ''theme_change'' [(''theme'', JStr theme)] (applyTheme env theme ?w2)"
    using assms(2,3) by (simp add: themeToggle_click_def storeTheme_def setItem_def Let_def)
  have a: "Analytics (applyTheme env theme ?w2) = Some a"
    using assms(1) by (simp add: applyTheme_frame)
  show "fst (themeToggle_click p env w) = Done"
    unfolding st using a by (rule trackEvent_Done)
  show "Analytics (snd (themeToggle_click p env w)) =
           Some (a\<lparr>events := events a @
             [make_event env (sessionId a) ''theme_change'' [(''theme'', JStr theme)]]\<rparr>)"
    unfolding st using a by (rule trackEvent_events)
  have "theme \<noteq> ''system''" using assms(3) by auto
  then show "dataTheme (snd (themeToggle_click p env w)) = Some theme"
    unfolding st by (simp add: trackEvent_frame applyTheme_dataTheme)
  show "localStorage (snd (themeToggle_click p env w)) ''linkpro_theme'' = Some theme"
    unfolding st trackEvent_written [OF a assms(2)]
    by (simp add: applyTheme_frame trackingKey_def)
qed

lemma sample_themed_fields:
  "currentTheme sample_themed = ''system''"
  "dataTheme sample_themed = Some ''dark''"
  "Analytics sample_themed = Some sample_session"
  "listeners sample_themed = [Click_themeToggle, Change_systemTheme]"
  "localStorage sample_themed = Map.empty"
  by (simp_all add: sample_themed_def Theme_init_def getStoredTheme_def getItem_def
      sample_env_def sample_world_def applyTheme_def updateThemeIcon_def
      setupThemeToggle_def watchSystemTheme_def Let_def)

text \<open>
  C5. \<open>storeTheme\<close> does not catch a failing write, as \<open>saveToStorage\<close> does. When
  \<open>localStorage\<close> refuses the write, the click listener of the toggle ends with that
  exception: the current theme has changed, and nothing else has. The preference is
  not persisted, the displayed theme is the old one, and no \<open>theme_change\<close> event is
  appended to the in-memory sequence.
\<close>

theorem themeToggle_click_write_fails:
  assumes "setItem_fault env = Some e"
  shows "themeToggle_click p env w =
     (Threw e, w\<lparr>currentTheme := (if currentTheme w = ''light'' then ''dark'' else ''light'')\<rparr>)"
  using assms by (simp add: themeToggle_click_def storeTheme_def setItem_def Let_def)

theorem themeToggle_click_write_fails_witness:
  "themeToggle_click sample_platform ((sample_env 2)\<lparr>setItem_fault := Some QuotaExceededError\<rparr>)
     sample_themed =
     (Threw QuotaExceededError, sample_themed\<lparr>currentTheme := ''light''\<rparr>)
   \<and> dataTheme (sample_themed\<lparr>currentTheme := ''light''\<rparr>) = Some ''dark''
   \<and> localStorage (sample_themed\<lparr>currentTheme := ''light''\<rparr>) ''linkpro_theme'' = None
   \<and> Analytics (sample_themed\<lparr>currentTheme := ''light''\<rparr>) = Some sample_session
   \<and> events sample_session = []"
  using themeToggle_click_write_fails
    [of "(sample_env 2)\<lparr>setItem_fault := Some QuotaExceededError\<rparr>" QuotaExceededError
        sample_platform sample_themed]
  by (simp add: sample_themed_fields sample_session_def)

text \<open>
  X2. With an initialised \<open>Analytics\<close> object and a storage write that succeeds, a
  click on the toggle returns without an exception; the new theme is \<open>dark\<close> when the
  old one was \<open>light\<close> and \<open>light\<close> otherwise, so from \<open>system\<close> it is \<open>light\<close>
  whatever the colour scheme of the operating system; the new theme is the current
  theme, the stored preference and the displayed theme, and one \<open>theme_change\<close> event
  carrying it is appended to the in-memory sequence. The listener for a change of the
  colour scheme then leaves the page as it is.
\<close>

theorem theme_toggle_is_explicit:
  assumes "Analytics w = Some a" and "setItem_fault env = None"
    and "theme = (if currentTheme w = ''light'' then ''dark'' else ''light'')"
    and "w' = snd (themeToggle_click p env w)"
  shows "fst (themeToggle_click p env w) = Done
     \<and> (currentTheme w = ''system'' \<longrightarrow> theme = ''light'')
     \<and> currentTheme w' = theme
     \<and> localStorage w' ''linkpro_theme'' = Some theme
     \<and> dataTheme w' = Some theme
     \<and> Analytics w' = Some (a\<lparr>events := events a @
          [make_event env (sessionId a) ''theme_change'' [(''theme'', JStr theme)]]\<rparr>)
     \<and> explicit_theme w'
     \<and> (\<forall>env2. systemTheme_change env2 w' = w')"
proof -
  have ex: "explicit_theme w'"
    by (simp add: assms(4) explicit_theme_def themeToggle_click_currentTheme)
  then have "currentTheme w' \<noteq> ''system''" by (auto simp: explicit_theme_def)
  then have "systemTheme_change env2 w' = w'" for env2 by (simp add: systemTheme_change_def)
  then show ?thesis
    using themeToggle_click_ok [OF assms(1,2,3), of p] ex
    by (simp add: assms(4) themeToggle_click_currentTheme assms(3))
qed

theorem theme_toggle_is_explicit_witness:
  "currentTheme sample_themed = ''system''
   \<and> dataTheme sample_themed = Some ''dark''
   \<and> fst (themeToggle_click sample_platform (sample_env 2) sample_themed) = Done
   \<and> currentTheme (snd (themeToggle_click sample_platform (sample_env 2) sample_themed)) = ''light''
   \<and> localStorage (snd (themeToggle_click sample_platform (sample_env 2) sample_themed))
        ''linkpro_theme'' = Some ''light''
   \<and> dataTheme (snd (themeToggle_click sample_platform (sample_env 2) sample_themed)) = Some ''light''
   \<and> Analytics (snd (themeToggle_click sample_platform (sample_env 2) sample_themed)) =
        Some (sample_session\<lparr>events :=
          [make_event (sample_env 2) ''session_1_xyz'' ''theme_change'' [(''theme'', JStr ''light'')]]\<rparr>)
   \<and> dataTheme (systemTheme_change ((sample_env 3)\<lparr>prefers_dark := False\<rparr>)
        (snd (themeToggle_click sample_platform (sample_env 2) sample_themed))) = Some ''light''"
proof -
  have ok: "setItem_fault (sample_env 2) = None" by (simp add: sample_env_def)
  have th: "''light'' = (if currentTheme sample_themed = ''light'' then ''dark'' else ''light'')"
    by (simp add: sample_themed_fields)
  note t = theme_toggle_is_explicit [OF sample_themed_fields(3) ok th refl, of sample_platform]
  let ?w' = "snd (themeToggle_click sample_platform (sample_env 2) sample_themed)"
  have ignored: "systemTheme_change e ?w' = ?w'" for e
    using t by blast
  from t show ?thesis
    by (simp add: ignored sample_themed_fields sample_session_def)
qed

text \<open>
  X4. Once the theme is \<open>light\<close> or \<open>dark\<close>, it stays one of the two: a click on the
  toggle gives the other of the two whether or not the listener ends with an
  exception, the listener for a change of the colour scheme changes nothing, and
  \<open>trackEvent\<close>, which the listeners for \<open>error\<close> call, does not touch the theme.
\<close>

theorem explicit_theme_preserved:
  assumes "explicit_theme w"
  shows "explicit_theme (snd (themeToggle_click p env w))
     \<and> currentTheme (snd (themeToggle_click p env w)) \<noteq> currentTheme w
     \<and> systemTheme_change env w = w
     \<and> explicit_theme (snd (trackEvent p env n d w))"
  using assms
  by (auto simp: explicit_theme_def themeToggle_click_currentTheme systemTheme_change_def
      trackEvent_frame)

theorem explicit_theme_preserved_witness:
  "explicit_theme (sample_themed\<lparr>currentTheme := ''light''\<rparr>)
   \<and> currentTheme (snd (themeToggle_click sample_platform
        ((sample_env 4)\<lparr>setItem_fault := Some QuotaExceededError\<rparr>)
        (sample_themed\<lparr>currentTheme := ''light''\<rparr>))) = ''dark''
   \<and> systemTheme_change ((sample_env 4)\<lparr>prefers_dark := False\<rparr>)
        (sample_themed\<lparr>currentTheme := ''light''\<rparr>) = sample_themed\<lparr>currentTheme := ''light''\<rparr>"
proof -
  have e: "explicit_theme (sample_themed\<lparr>currentTheme := ''light''\<rparr>)"
    by (simp add: explicit_theme_def)
  from explicit_theme_preserved [OF e, of sample_platform
      "(sample_env 4)\<lparr>setItem_fault := Some QuotaExceededError\<rparr>"]
    explicit_theme_preserved [OF e, of sample_platform "(sample_env 4)\<lparr>prefers_dark := False\<rparr>"]
  show ?thesis using e by (auto simp: explicit_theme_def)
qed

section \<open>Properties of the unload listener\<close>

lemma trackSessionEnd_events:
  assumes "Analytics w = Some a"
  shows "Analytics (snd (trackSessionEnd p env env' w)) =
    Some (a\<lparr>events := events a @
      [make_event env' (sessionId a) ''session_end''
         [(''duration'', JNum (now env - startTime a)),
          (''eventsCount'', JNum (int (length (events a))))]]\<rparr>)"
  using assms by (simp add: trackSessionEnd_def trackEvent_events)

lemma run_beforeunload_trackSessionEnd:
  assumes "Analytics w = Some a"
  shows "run_beforeunload p env env' BeforeUnload_trackSessionEnd w
     = Some (snd (trackSessionEnd p env env' w))"
proof -
  have "fst (trackSessionEnd p env env' w) = Done"
    using assms by (simp add: trackSessionEnd_def trackEvent_Done)
  then show ?thesis by (cases "trackSessionEnd p env env' w") simp
qed

lemma fold_beforeunload_none:
  assumes "count_list ls BeforeUnload_trackSessionEnd = 0"
  shows "fold (\<lambda>l r. Option.bind r (run_beforeunload p env env' l)) ls (Some w) = Some w"
  using assms
proof (induction ls)
  case Nil
  then show ?case by simp
next
  case (Cons l ls)
  then have "l \<noteq> BeforeUnload_trackSessionEnd" by (auto split: if_splits)
  then have "run_beforeunload p env env' l w = Some w" by (cases l) simp_all
  then show ?case using Cons by (simp split: if_splits)
qed

lemma fold_beforeunload_one:
  assumes "count_list ls BeforeUnload_trackSessionEnd = 1" and "Analytics w = Some a"
  shows "fold (\<lambda>l r. Option.bind r (run_beforeunload p env env' l)) ls (Some w)
     = Some (snd (trackSessionEnd p env env' w))"
  using assms(1)
proof (induction ls)
  case Nil
  then show ?case by simp
next
  case (Cons l ls)
  show ?case
  proof (cases "l = BeforeUnload_trackSessionEnd")
    case True
    then have c0: "count_list ls BeforeUnload_trackSessionEnd = 0" using Cons.prems by simp
    have r: "run_beforeunload p env env' l w = Some (snd (trackSessionEnd p env env' w))"
      unfolding True by (rule run_beforeunload_trackSessionEnd [OF assms(2)])
    have "fold (\<lambda>l r. Option.bind r (run_beforeunload p env env' l)) (l # ls) (Some w)
        = fold (\<lambda>l r. Option.bind r (run_beforeunload p env env' l)) ls
            (run_beforeunload p env env' l w)"
      by simp
    also have "\<dots> = Some (snd (trackSessionEnd p env env' w))"
      unfolding r by (rule fold_beforeunload_none [OF c0])
    finally show ?thesis .
  next
    case False
    then have "run_beforeunload p env env' l w = Some w" by (cases l) simp_all
    then show ?thesis using Cons False by simp
  qed
qed

lemma Analytics_init_result:
  shows "fst (Analytics_init p e e' w) = Done"
    and "Analytics (snd (Analytics_init p e e' w)) =
      Some \<lparr>sessionId = fresh_session_id e, startTime = now e,
            events = [make_event e' (fresh_session_id e) ''page_view''
                        [(''url'', JStr (href e)), (''referrer'', JStr (referrer e)),
                         (''device'', deviceInfo e)]]\<rparr>"
    and "listeners (snd (Analytics_init p e e' w)) =
      listeners w @ [Load_trackPerformance, BeforeUnload_trackSessionEnd]"
proof -
  let ?w1 = "w\<lparr>Analytics := Some \<lparr>sessionId = fresh_session_id e, startTime = now e, events = []\<rparr>\<rparr>"
  let ?t = "trackEvent p e' ''page_view''
              [(''url'', JStr (href e)), (''referrer'', JStr (referrer e)),
               (''device'', deviceInfo e)] ?w1"
  have a1: "Analytics ?w1 = Some \<lparr>sessionId = fresh_session_id e, startTime = now e, events = []\<rparr>"
    by simp
  have d: "fst ?t = Done" using a1 by (rule trackEvent_Done)
  then obtain w2 where w2: "?t = (Done, w2)" by (cases ?t) auto
  then have s: "w2 = snd ?t" by simp
  have init: "Analytics_init p e e' w =
      (Done, (trackPerformance w2)\<lparr>listeners := listeners (trackPerformance w2) @ [BeforeUnload_trackSessionEnd]\<rparr>)"
    using w2 by (simp add: Analytics_init_def analytics_enabled_def Let_def)
  show "fst (Analytics_init p e e' w) = Done" by (simp add: init)
  show "Analytics (snd (Analytics_init p e e' w)) =
      Some \<lparr>sessionId = fresh_session_id e, startTime = now e,
            events = [make_event e' (fresh_session_id e) ''page_view''
                        [(''url'', JStr (href e)), (''referrer'', JStr (referrer e)),
                         (''device'', deviceInfo e)]]\<rparr>"
    using trackEvent_events [OF a1, of p e' "''page_view''"]
    by (simp add: init trackPerformance_def s)
  show "listeners (snd (Analytics_init p e e' w)) =
      listeners w @ [Load_trackPerformance, BeforeUnload_trackSessionEnd]"
    by (simp add: init trackPerformance_def s trackEvent_frame)
qed

text \<open>
  X5. On a page with no unload listener yet, \<open>Analytics.init\<close> registers exactly one.
  After any run of \<open>trackEvent\<close> calls, the \<open>beforeunload\<close> event appends exactly one
  event to the in-memory sequence, as its last entry: a \<open>session_end\<close> whose duration
  is the clock at the event minus the start time and whose \<open>eventsCount\<close> is the
  length of the sequence just before the entry is appended.
\<close>

theorem beforeunload_records_session_end:
  assumes "count_list (listeners w0) BeforeUnload_trackSessionEnd = 0"
    and "w1 = snd (Analytics_init p e0 e0' w0)"
    and "w2 = snd (trackEvents p calls w1)"
    and "w3 = snd (trackSessionEnd p env env' w2)"
    and "Analytics w2 = Some a2"
    and "ev = make_event env' (fresh_session_id e0) ''session_end''
               [(''duration'', JNum (now env - now e0)),
                (''eventsCount'', JNum (1 + int (length calls)))]"
  shows "fst (Analytics_init p e0 e0' w0) = Done
     \<and> count_list (listeners w2) BeforeUnload_trackSessionEnd = 1
     \<and> sessionId a2 = fresh_session_id e0 \<and> startTime a2 = now e0
     \<and> length (events a2) = 1 + length calls
     \<and> dispatch_beforeunload p env env' w2 = Some w3
     \<and> Analytics w3 = Some (a2\<lparr>events := events a2 @ [ev]\<rparr>)
     \<and> named ''session_end'' ev
     \<and> duration_of ev = Returns (JNum (now env - startTime a2))
     \<and> get_prop ev F_data =
         Returns (JObj [(''duration'', JNum (now env - startTime a2)),
                        (''eventsCount'', JNum (int (length (events a2)))),
                        (''timestamp'', JNum (now env')), (''url'', JStr (href env'))])"
proof -
  note init = Analytics_init_result [of p e0 e0' w0]
  have a1: "Analytics w1 = Some \<lparr>sessionId = fresh_session_id e0, startTime = now e0,
            events = [make_event e0' (fresh_session_id e0) ''page_view''
                        [(''url'', JStr (href e0)), (''referrer'', JStr (referrer e0)),
                         (''device'', deviceInfo e0)]]\<rparr>"
    by (simp add: assms(2) init)
  note run = trackEvents_run [OF a1, of p calls]
  have a2: "a2 = \<lparr>sessionId = fresh_session_id e0, startTime = now e0,
            events = make_event e0' (fresh_session_id e0) ''page_view''
                        [(''url'', JStr (href e0)), (''referrer'', JStr (referrer e0)),
                         (''device'', deviceInfo e0)]
                     # map (event_of_call (fresh_session_id e0)) calls\<rparr>"
    using run assms(3,5) by simp
  have l2: "listeners w2 = listeners w0 @ [Load_trackPerformance, BeforeUnload_trackSessionEnd]"
    using run by (simp add: assms(2,3) init)
  have one: "count_list (listeners w2) BeforeUnload_trackSessionEnd = 1"
    by (simp add: l2 assms(1))
  have w3: "w3 = snd (trackSessionEnd p env env' w2)" by (rule assms(4))
  have d3: "dispatch_beforeunload p env env' w2 = Some w3"
    by (simp add: assms(4) dispatch_beforeunload_def fold_beforeunload_one [OF one assms(5)])
  have a3: "Analytics w3 = Some (a2\<lparr>events := events a2 @ [ev]\<rparr>)"
    unfolding w3 trackSessionEnd_events [OF assms(5)] by (simp add: a2 assms(6))
  show ?thesis
    using one a3 d3 init(1)
    by (simp add: a2 assms(6) named_def make_event_name make_event_data duration_of_def
        obj_get_Cons)
qed


theorem beforeunload_records_session_end_witness:
  "\<exists>a2. Analytics sample_visited = Some a2
     \<and> length (events a2) = 2
     \<and> count_list (listeners sample_visited) BeforeUnload_trackSessionEnd = 1
     \<and> map_option Analytics
          (dispatch_beforeunload sample_platform (sample_env 9000) (sample_env 9001)
             sample_visited) =
         Some (Some (a2\<lparr>events := events a2 @
           [make_event (sample_env 9001) ''session_1_xyz'' ''session_end''
              [(''duration'', JNum 8000), (''eventsCount'', JNum 2)]]\<rparr>))
     \<and> get_prop (make_event (sample_env 9001) ''session_1_xyz'' ''session_end''
              [(''duration'', JNum 8000), (''eventsCount'', JNum 2)]) F_data =
         Returns (JObj [(''duration'', JNum 8000), (''eventsCount'', JNum 2),
                        (''timestamp'', JNum 9001), (''url'', JStr ''https://example.org/'')])"
proof -
  let ?calls = "[(sample_env 1002, ''link_click'', [(''category'', JStr ''music'')])]"
  let ?w1 = "snd (Analytics_init sample_platform (sample_env 1000) (sample_env 1001) sample_world)"
  have l0: "count_list (listeners sample_world) BeforeUnload_trackSessionEnd = 0"
    by (simp add: sample_world_def)
  have v: "sample_visited = snd (trackEvents sample_platform ?calls ?w1)"
    by (simp add: sample_visited_def)
  obtain a1 where a1: "Analytics ?w1 = Some a1"
    using Analytics_init_result(2) [of sample_platform "sample_env 1000" "sample_env 1001" sample_world]
    by blast
  obtain a2 where a2: "Analytics sample_visited = Some a2"
    using trackEvents_run [OF a1, of sample_platform ?calls] v by simp
  have ev: "make_event (sample_env 9001) ''session_1_xyz'' ''session_end''
              [(''duration'', JNum 8000), (''eventsCount'', JNum 2)]
      = make_event (sample_env 9001) (fresh_session_id (sample_env 1000)) ''session_end''
               [(''duration'', JNum (now (sample_env 9000) - now (sample_env 1000))),
                (''eventsCount'', JNum (1 + int (length ?calls)))]"
    by (simp add: sample_env_def)
  from beforeunload_records_session_end [OF l0 refl v refl a2 ev]
  show ?thesis
    by (intro exI [of _ a2]) (simp add: a2 sample_env_def)
qed

text \<open>
  C9. The listener for \<open>beforeunload\<close> is registered without \<open>once\<close> and is never
  removed, and \<open>trackSessionEnd\<close> keeps no record that it has run. Every
  \<open>beforeunload\<close> event that the page receives runs it: after two of them the
  in-memory sequence ends with two \<open>session_end\<close> events of the same session, and
  the first of them is no longer the last entry.
\<close>

theorem beforeunload_twice_records_twice:
  assumes "count_list (listeners w) BeforeUnload_trackSessionEnd = 1"
    and "Analytics w = Some a"
    and "w1 = snd (trackSessionEnd p env1 env1' w)"
    and "w2 = snd (trackSessionEnd p env2 env2' w1)"
    and "ev1 = make_event env1' (sessionId a) ''session_end''
                 [(''duration'', JNum (now env1 - startTime a)),
                  (''eventsCount'', JNum (int (length (events a))))]"
    and "ev2 = make_event env2' (sessionId a) ''session_end''
                 [(''duration'', JNum (now env2 - startTime a)),
                  (''eventsCount'', JNum (int (length (events a)) + 1))]"
  shows "dispatch_beforeunload p env1 env1' w = Some w1
     \<and> Analytics w1 = Some (a\<lparr>events := events a @ [ev1]\<rparr>)
     \<and> count_list (listeners w1) BeforeUnload_trackSessionEnd = 1
     \<and> dispatch_beforeunload p env2 env2' w1 = Some w2
     \<and> Analytics w2 = Some (a\<lparr>events := events a @ [ev1, ev2]\<rparr>)
     \<and> named ''session_end'' ev1 \<and> named ''session_end'' ev2"
proof -
  have w1: "w1 = snd (trackSessionEnd p env1 env1' w)" by (rule assms(3))
  have d1: "dispatch_beforeunload p env1 env1' w = Some w1"
    by (simp add: assms(3) dispatch_beforeunload_def fold_beforeunload_one [OF assms(1,2)])
  have a1: "Analytics w1 = Some (a\<lparr>events := events a @ [ev1]\<rparr>)"
    unfolding w1 trackSessionEnd_events [OF assms(2)] by (simp add: assms(5))
  have l1: "listeners w1 = listeners w"
    using assms(2) by (simp add: w1 trackSessionEnd_def trackEvent_frame)
  then have one: "count_list (listeners w1) BeforeUnload_trackSessionEnd = 1"
    using assms(1) by simp
  have w2: "w2 = snd (trackSessionEnd p env2 env2' w1)" by (rule assms(4))
  have d2: "dispatch_beforeunload p env2 env2' w1 = Some w2"
    by (simp add: assms(4) dispatch_beforeunload_def fold_beforeunload_one [OF one a1])
  have a2: "Analytics w2 = Some (a\<lparr>events := events a @ [ev1, ev2]\<rparr>)"
    unfolding w2 trackSessionEnd_events [OF a1] by (simp add: assms(6) add.commute)
  show ?thesis
    using d1 a1 one d2 a2 by (simp add: assms(5,6) named_def make_event_name)
qed

theorem beforeunload_twice_records_twice_witness:
  "\<exists>a. Analytics sample_visited = Some a
     \<and> length (events a) = 2
     \<and> map_option Analytics
          (Option.bind
             (dispatch_beforeunload sample_platform (sample_env 9000) (sample_env 9001)
                sample_visited)
             (dispatch_beforeunload sample_platform (sample_env 12000) (sample_env 12001))) =
         Some (Some (a\<lparr>events := events a @
           [make_event (sample_env 9001) ''session_1_xyz'' ''session_end''
              [(''duration'', JNum 8000), (''eventsCount'', JNum 2)],
            make_event (sample_env 12001) ''session_1_xyz'' ''session_end''
              [(''duration'', JNum 11000), (''eventsCount'', JNum 3)]]\<rparr>))"
proof -
  let ?calls = "[(sample_env 1002, ''link_click'', [(''category'', JStr ''music'')])]"
  let ?w1 = "snd (Analytics_init sample_platform (sample_env 1000) (sample_env 1001) sample_world)"
  note init = Analytics_init_result [of sample_platform "sample_env 1000" "sample_env 1001" sample_world]
  have v: "sample_visited = snd (trackEvents sample_platform ?calls ?w1)"
    by (simp add: sample_visited_def)
  note run = trackEvents_run [OF init(2), of sample_platform ?calls]
  obtain a where a: "Analytics sample_visited = Some a" using run v by simp
  have fields: "sessionId a = ''session_1_xyz''" "startTime a = 1000" "length (events a) = 2"
    using run a v by (auto simp: sample_env_def)
  have l: "listeners sample_visited
      = listeners sample_world @ [Load_trackPerformance, BeforeUnload_trackSessionEnd]"
    using run by (simp add: v init(3))
  have one: "count_list (listeners sample_visited) BeforeUnload_trackSessionEnd = 1"
    by (simp add: l sample_world_def)
  from beforeunload_twice_records_twice [OF one a refl refl refl refl,
      of sample_platform "sample_env 9000" "sample_env 9001" "sample_env 12000" "sample_env 12001"]
  show ?thesis
    by (intro exI [of _ a]) (simp add: a fields sample_env_def)
qed

end
